theory Spec2Isabelle
  imports Complex_Main "HOL-Library.Sublist"
begin

section \<open>Data model\<close>

text \<open>
  The development embeds \<^verbatim>\<open>autode/molecule.py\<close>: the classes \<^verbatim>\<open>Molecule\<close> and
  \<^verbatim>\<open>SolvatedMolecule\<close> with their constructor, the SMILES dispatch, conformer
  generation and the two \<^verbatim>\<open>optimise\<close> methods. Python objects are records, mutation is
  explicit state passing, exceptions are values.
\<close>

datatype atom = Atom string real real real

datatype error =
    NoAtomsInMolecule
  | NoAtomsInSpecies
  | KeyError nat
  | AttributeError
  | ValueError
  | CollaboratorError string

datatype attr = Attr_str string | Attr_bool bool | Attr_float real

text \<open>
  The connectivity graph (a networkx graph in the source): \<^verbatim>\<open>graph.nodes[i]\<close> is the
  attribute dictionary of node \<open>i\<close>, and looking up a node that is not in the graph is a
  \<^verbatim>\<open>KeyError\<close>.
\<close>

record mol_graph =
  nodes :: "nat \<rightharpoonup> (string \<rightharpoonup> attr)"
  edges :: "(nat \<times> nat) list"

datatype rdkit_mol = RDKit_mol string

record solvent_species =
  solvent_species_name :: string
  solvent_species_atoms :: "atom list"

record conformer =
  conf_name :: string
  conf_charge :: int
  conf_mult :: int
  conf_atoms :: "atom list"
  conf_solvent :: "string option"

text \<open>
  One record holds the attributes of \<^verbatim>\<open>Species\<close>, of \<^verbatim>\<open>Molecule\<close> and the three that
  \<^verbatim>\<open>SolvatedMolecule\<close> adds (\<open>solvent_mol\<close>, \<open>qm_solvent_atoms\<close>, \<open>mm_solvent_atoms\<close>);
  Python's \<^verbatim>\<open>None\<close> is \<open>None\<close>.
\<close>

record molecule =
  name :: string
  atoms :: "atom list option"
  n_atoms :: nat
  charge :: int
  mult :: int
  solvent :: "string option"
  energy :: "real option"
  graph :: "mol_graph option"
  smiles :: "string option"
  rdkit_mol_obj :: "rdkit_mol option"
  rdkit_conf_gen_is_fine :: bool
  conformers :: "conformer list option"
  solvent_mol :: "solvent_species option"
  qm_solvent_atoms :: "atom list option"
  mm_solvent_atoms :: "atom list option"

record qm_method =
  method_name :: string
  keywords_opt :: "string list"

record calculation =
  calc_name :: string
  calc_molecule :: molecule
  calc_method :: qm_method
  keywords_list :: "string list"
  calc_n_cores :: int
  calc_opt :: bool

text \<open>
  What a finished calculation holds: the values \<^verbatim>\<open>get_energy\<close>, \<^verbatim>\<open>get_final_atoms\<close> and
  \<^verbatim>\<open>get_atomic_charges\<close> return, each of which may raise instead.
\<close>

record calc_output =
  get_energy :: "error + real"
  get_final_atoms :: "error + atom list"
  get_atomic_charges :: "error + real list"

record embed_params =
  pruneRmsThresh :: real
  numThreads :: int

text \<open>
  Every call that \<^verbatim>\<open>molecule.py\<close> makes to an external collaborator is recorded, in
  order. The annealing runs execute in the pool's worker processes: what the module calls,
  and what is recorded, is \<^verbatim>\<open>pool.apply_async(get_simanl_atoms, (self, None, i))\<close>, the
  submission of run \<open>i\<close>. All submissions are made before the first result is read, so
  they are recorded whether or not a run later fails or is ever started.
\<close>

datatype event =
    Call_init_smiles string
  | Call_init_organic_smiles string
  | Call_make_graph
  | Call_EmbedMultipleConfs int embed_params
  | Call_apply_async nat
  | Call_calculation_run string
  | Call_print_xyz_file string "atom list option"
  | Call_do_explicit_solvent_qmmm int

text \<open>
  A method either returns, or raises with the object as it is at that moment; both carry
  the record of collaborator calls made so far.
\<close>

datatype outcome =
    Returned molecule "event list"
  | Raised error molecule "event list"

text \<open>
  The collaborators that are imported by the module and whose code is elsewhere, together
  with the constants \<^verbatim>\<open>autode.atoms.metals\<close> and \<^verbatim>\<open>Config.n_cores\<close>, are parameters.
  \<open>completion_order\<close> is the order in which the pool's workers finish their jobs.
\<close>

record env =
  metals :: "string list"
  n_cores :: int
  init_smiles :: "molecule \<Rightarrow> string \<Rightarrow> error + molecule"
  init_organic_smiles :: "molecule \<Rightarrow> string \<Rightarrow> error + molecule"
  make_graph :: "molecule \<Rightarrow> error + molecule"
  EmbedMultipleConfs :: "rdkit_mol option \<Rightarrow> int \<Rightarrow> embed_params \<Rightarrow> error + int list"
  get_atoms_from_rdkit_mol_object :: "rdkit_mol option \<Rightarrow> int \<Rightarrow> error + atom list"
  get_simanl_atoms :: "molecule \<Rightarrow> nat \<Rightarrow> error + atom list"
  completion_order :: "nat list"
  calc_rmsd :: "atom list \<Rightarrow> atom list \<Rightarrow> real"
  rmsd_tol :: real
  calculation_run :: "calculation \<Rightarrow> error + calc_output"
  print_xyz_file :: "string \<Rightarrow> atom list option \<Rightarrow> error option"
  do_explicit_solvent_qmmm ::
    "molecule \<Rightarrow> solvent_species option \<Rightarrow> qm_method \<Rightarrow> int
      \<Rightarrow> error + (real \<times> atom list \<times> atom list \<times> atom list)"

section \<open>Strings\<close>

text \<open>Python's \<^verbatim>\<open>a in b\<close> on strings: \<open>a\<close> occurs in \<open>b\<close> as a run of characters.\<close>

fun starts_with :: "string \<Rightarrow> string \<Rightarrow> bool" where
  "starts_with s [] = True"
| "starts_with [] (c # cs) = False"
| "starts_with (d # ds) (c # cs) = (d = c \<and> starts_with ds cs)"

fun str_in :: "string \<Rightarrow> string \<Rightarrow> bool" where
  "str_in a [] = (a = [])"
| "str_in a (c # cs) = (starts_with (c # cs) a \<or> str_in a cs)"

text \<open>Python's \<^verbatim>\<open>f'{i}'\<close> for a non-negative integer: its decimal digits.\<close>

definition digit :: "nat \<Rightarrow> char" where
  "digit d = ''0123456789'' ! (d mod 10)"

fun str_of_nat :: "nat \<Rightarrow> string" where
  "str_of_nat n = (if n < 10 then [digit n] else str_of_nat (n div 10) @ [digit (n mod 10)])"

declare str_of_nat.simps [simp del]

section \<open>Construction\<close>

text \<open>
  \<^verbatim>\<open>Molecule._init_smiles\<close>: the metal initialiser when some entry of \<open>metals\<close> occurs in
  the SMILES text, the organic one otherwise.
\<close>

definition Molecule_init_smiles :: "env \<Rightarrow> string \<Rightarrow> molecule \<Rightarrow> event list \<Rightarrow> outcome" where
  "Molecule_init_smiles env smi m tr =
     (if list_ex (\<lambda>metal. str_in metal smi) (metals env)
      then (case init_smiles env m smi of
              Inl e \<Rightarrow> Raised e m (tr @ [Call_init_smiles smi])
            | Inr m' \<Rightarrow> Returned m' (tr @ [Call_init_smiles smi]))
      else (case init_organic_smiles env m smi of
              Inl e \<Rightarrow> Raised e m (tr @ [Call_init_organic_smiles smi])
            | Inr m' \<Rightarrow> Returned m' (tr @ [Call_init_organic_smiles smi])))"

text \<open>
  Modelled from the spec: \<^verbatim>\<open>Species.set_atoms\<close> is in \<^verbatim>\<open>autode/species.py\<close>, which is
  outside the module embedded here. The atom sequence is replaced as a whole and the atom
  count follows it.
\<close>

definition set_atoms :: "atom list option \<Rightarrow> molecule \<Rightarrow> molecule" where
  "set_atoms as m =
     m\<lparr>atoms := as, n_atoms := (case as of None \<Rightarrow> 0 | Some xs \<Rightarrow> length xs)\<rparr>"

text \<open>
  Modelled from the spec: \<^verbatim>\<open>Species.__init__\<close> is in \<^verbatim>\<open>autode/species.py\<close>, which is
  outside the module embedded here. A species has a name, an ordered atom sequence with its
  count, a charge, a multiplicity and an optional solvent; energy and graph are absent
  until computed. The fields of the subclasses are set by their own constructors.
\<close>

definition Species_init ::
  "string \<Rightarrow> atom list option \<Rightarrow> int \<Rightarrow> int \<Rightarrow> string option \<Rightarrow> molecule" where
  "Species_init nm as chg mlt solvent_name =
     \<lparr>name = nm, atoms = as,
      n_atoms = (case as of None \<Rightarrow> 0 | Some xs \<Rightarrow> length xs),
      charge = chg, mult = mlt, solvent = solvent_name, energy = None, graph = None,
      smiles = None, rdkit_mol_obj = None, rdkit_conf_gen_is_fine = False,
      conformers = None, solvent_mol = None, qm_solvent_atoms = None,
      mm_solvent_atoms = None\<rparr>"

text \<open>
  \<^verbatim>\<open>Molecule.__init__\<close>. The first definition is the object after the parent constructor
  and the four attribute assignments. \<^verbatim>\<open>if smiles:\<close> is true for a string that is neither
  \<^verbatim>\<open>None\<close> nor empty. A \<open>Raised\<close> outcome means that the constructor raised: the caller
  gets no object.
\<close>

definition Molecule_init_fields ::
  "string \<Rightarrow> string option \<Rightarrow> atom list option \<Rightarrow> string option \<Rightarrow> int \<Rightarrow> int \<Rightarrow> molecule" where
  "Molecule_init_fields nm smi as solvent_name chg mlt =
     (Species_init nm as chg mlt solvent_name)
       \<lparr>smiles := smi, rdkit_mol_obj := None, rdkit_conf_gen_is_fine := True,
        conformers := None\<rparr>"

definition Molecule_init ::
  "env \<Rightarrow> string \<Rightarrow> string option \<Rightarrow> atom list option \<Rightarrow> string option \<Rightarrow> int \<Rightarrow> int
     \<Rightarrow> event list \<Rightarrow> outcome" where
  "Molecule_init env nm smi as solvent_name chg mlt tr =
     (let m0 = Molecule_init_fields nm smi as solvent_name chg mlt;
          r = (case smi of
                 None \<Rightarrow>
                   (case make_graph env m0 of
                      Inl e \<Rightarrow> Raised e m0 (tr @ [Call_make_graph])
                    | Inr m' \<Rightarrow> Returned m' (tr @ [Call_make_graph]))
               | Some s \<Rightarrow>
                   if s \<noteq> [] then Molecule_init_smiles env s m0 tr
                   else (case make_graph env m0 of
                           Inl e \<Rightarrow> Raised e m0 (tr @ [Call_make_graph])
                         | Inr m' \<Rightarrow> Returned m' (tr @ [Call_make_graph])))
      in case r of
           Raised e m' tr' \<Rightarrow> Raised e m' tr'
         | Returned m' tr' \<Rightarrow>
             if n_atoms m' = 0 then Raised NoAtomsInMolecule m' tr' else Returned m' tr')"

text \<open>\<^verbatim>\<open>SolvatedMolecule.__init__\<close>: the parent constructor, then the three solvent fields.\<close>

definition SolvatedMolecule_init ::
  "env \<Rightarrow> string \<Rightarrow> string option \<Rightarrow> atom list option \<Rightarrow> string option \<Rightarrow> int \<Rightarrow> int
     \<Rightarrow> event list \<Rightarrow> outcome" where
  "SolvatedMolecule_init env nm smi as solvent_name chg mlt tr =
     (case Molecule_init env nm smi as solvent_name chg mlt tr of
        Raised e m' tr' \<Rightarrow> Raised e m' tr'
      | Returned m' tr' \<Rightarrow>
          Returned (m'\<lparr>solvent_mol := None, qm_solvent_atoms := None,
                       mm_solvent_atoms := None\<rparr>) tr')"

text \<open>
  Modelled from the spec: the decorator \<^verbatim>\<open>requires_atoms\<close> is in \<^verbatim>\<open>autode/utils.py\<close>,
  which is outside the module embedded here. An operation invoked on a molecule with no
  atoms fails at once, before the decorated method does anything.
\<close>

definition requires_atoms ::
  "(molecule \<Rightarrow> event list \<Rightarrow> 'r) \<Rightarrow> (error \<Rightarrow> molecule \<Rightarrow> event list \<Rightarrow> 'r)
     \<Rightarrow> molecule \<Rightarrow> event list \<Rightarrow> 'r" where
  "requires_atoms f raise m tr = (if n_atoms m = 0 then raise NoAtomsInSpecies m tr else f m tr)"

section \<open>Conformer generation\<close>

text \<open>
  Modelled from the spec: \<^verbatim>\<open>Conformer\<close> is in \<^verbatim>\<open>autode/conformers/conformer.py\<close>, which
  is outside the module embedded here. A conformer is a named entity with its own charge,
  multiplicity and atom sequence; its solvent is absent until assigned.
\<close>

definition Conformer :: "string \<Rightarrow> int \<Rightarrow> int \<Rightarrow> atom list \<Rightarrow> conformer" where
  "Conformer nm chg mlt as =
     \<lparr>conf_name = nm, conf_charge = chg, conf_mult = mlt, conf_atoms = as,
      conf_solvent = None\<rparr>"

text \<open>
  Modelled from the spec: \<^verbatim>\<open>conf_is_unique_rmsd\<close> is in
  \<^verbatim>\<open>autode/conformers/conformers.py\<close>, which is outside the module embedded here. The
  distance of the candidate to each accepted geometry is computed; the candidate is
  rejected if the least of them is below the threshold, and an empty accepted set always
  yields "unique". The distance function and the threshold are parameters.
\<close>

definition conf_is_unique_rmsd :: "env \<Rightarrow> conformer \<Rightarrow> conformer list \<Rightarrow> bool" where
  "conf_is_unique_rmsd env conf conf_list =
     (case map (\<lambda>other. calc_rmsd env (conf_atoms conf) (conf_atoms other)) conf_list of
        [] \<Rightarrow> True
      | d # ds \<Rightarrow> \<not> fold min ds d < rmsd_tol env)"

text \<open>
  The loop \<^verbatim>\<open>for i, atoms in enumerate(conf_atoms_list)\<close>; the last argument is
  \<^verbatim>\<open>self.conformers\<close>, the other attributes of \<^verbatim>\<open>self\<close> are only read.
\<close>

fun conformers_loop ::
  "env \<Rightarrow> molecule \<Rightarrow> nat \<Rightarrow> atom list list \<Rightarrow> conformer list \<Rightarrow> conformer list" where
  "conformers_loop env m i [] confs = confs"
| "conformers_loop env m i (as # rest) confs =
     (let conf = Conformer (name m @ ''_conf'' @ str_of_nat i) (charge m) (mult m) as
      in if conf_is_unique_rmsd env conf confs
         then conformers_loop env m (i + 1) rest (confs @ [conf\<lparr>conf_solvent := solvent m\<rparr>])
         else conformers_loop env m (i + 1) rest confs)"

text \<open>
  The list comprehension over \<^verbatim>\<open>conf_ids\<close>: one atom sequence per embedding identifier,
  in order; the first extraction that raises ends it.
\<close>

fun atoms_of_conf_ids :: "env \<Rightarrow> rdkit_mol option \<Rightarrow> int list \<Rightarrow> error + atom list list" where
  "atoms_of_conf_ids env obj [] = Inr []"
| "atoms_of_conf_ids env obj (conf_id # conf_ids) =
     (case get_atoms_from_rdkit_mol_object env obj conf_id of
        Inl e \<Rightarrow> Inl e
      | Inr as \<Rightarrow>
          (case atoms_of_conf_ids env obj conf_ids of
             Inl e \<Rightarrow> Inl e
           | Inr rest \<Rightarrow> Inr (as # rest)))"

text \<open>
  The worker pool. \<^verbatim>\<open>apply_async\<close> returns a handle per submitted job; a job that
  completes stores its result (the value or the exception) in the slot of its handle.
  Jobs complete in any order.
\<close>

type_synonym slots = "nat \<rightharpoonup> (error + atom list)"

fun run_workers :: "(nat \<Rightarrow> error + atom list) \<Rightarrow> nat list \<Rightarrow> slots \<Rightarrow> slots" where
  "run_workers f [] sl = sl"
| "run_workers f (j # js) sl = run_workers f js (sl(j \<mapsto> f j))"

text \<open>
  \<^verbatim>\<open>[res.get(timeout=None) for res in results]\<close>: the handles are read in the order of
  submission. \<^verbatim>\<open>get\<close> returns the job's value, raises the job's exception, and never
  returns (\<open>None\<close>) when the job never completes.
\<close>

fun get_all :: "slots \<Rightarrow> nat list \<Rightarrow> (error + atom list list) option" where
  "get_all sl [] = Some (Inr [])"
| "get_all sl (j # js) =
     (case sl j of
        None \<Rightarrow> None
      | Some (Inl e) \<Rightarrow> Some (Inl e)
      | Some (Inr as) \<Rightarrow>
          (case get_all sl js of
             None \<Rightarrow> None
           | Some (Inl e) \<Rightarrow> Some (Inl e)
           | Some (Inr rest) \<Rightarrow> Some (Inr (as # rest))))"

text \<open>
  The two branches that compute \<^verbatim>\<open>conf_atoms_list\<close>, with the collaborator calls they
  make. In the annealing branch the list comprehension of \<^verbatim>\<open>apply_async\<close> calls is
  complete before any handle is read, so the submissions are recorded on the raising path
  too. \<^verbatim>\<open>Pool(processes=n)\<close> raises \<^verbatim>\<open>ValueError\<close> for \<open>n < 1\<close>; \<^verbatim>\<open>range(n)\<close> is empty for
  a negative \<open>n\<close>.
\<close>

definition rdkit_conf_atoms_list ::
  "env \<Rightarrow> int \<Rightarrow> molecule \<Rightarrow> event list \<Rightarrow> (error + atom list list) \<times> event list" where
  "rdkit_conf_atoms_list env n_rdkit_confs m tr =
     (let params = \<lparr>pruneRmsThresh = 0.5, numThreads = n_cores env\<rparr>;
          tr1 = tr @ [Call_EmbedMultipleConfs n_rdkit_confs params]
      in case EmbedMultipleConfs env (rdkit_mol_obj m) n_rdkit_confs params of
           Inl e \<Rightarrow> (Inl e, tr1)
         | Inr conf_ids \<Rightarrow> (atoms_of_conf_ids env (rdkit_mol_obj m) conf_ids, tr1))"

definition simanl_conf_atoms_list ::
  "env \<Rightarrow> int \<Rightarrow> molecule \<Rightarrow> event list \<Rightarrow> ((error + atom list list) \<times> event list) option" where
  "simanl_conf_atoms_list env n_siman_confs m tr =
     (if n_cores env < 1 then Some (Inl ValueError, tr)
      else
        (let results = [0 ..< nat n_siman_confs];
             tr1 = tr @ map Call_apply_async results;
             sl = run_workers (get_simanl_atoms env m) (completion_order env) Map.empty
         in case get_all sl results of
              None \<Rightarrow> None
            | Some r \<Rightarrow> Some (r, tr1)))"

text \<open>
  \<^verbatim>\<open>Molecule._generate_conformers\<close>. \<open>sample_conf_atoms_list\<close> is the \<^verbatim>\<open>if\<close>/\<^verbatim>\<open>else\<close>
  that computes \<^verbatim>\<open>conf_atoms_list\<close>. The result is \<open>None\<close> when the call never returns.
\<close>

definition sample_conf_atoms_list ::
  "env \<Rightarrow> int \<Rightarrow> int \<Rightarrow> molecule \<Rightarrow> event list \<Rightarrow> ((error + atom list list) \<times> event list) option" where
  "sample_conf_atoms_list env n_rdkit_confs n_siman_confs m tr =
     (if smiles m \<noteq> None \<and> rdkit_conf_gen_is_fine m
      then Some (rdkit_conf_atoms_list env n_rdkit_confs m tr)
      else simanl_conf_atoms_list env n_siman_confs m tr)"

definition generate_conformers_body ::
  "env \<Rightarrow> int \<Rightarrow> int \<Rightarrow> molecule \<Rightarrow> event list \<Rightarrow> outcome option" where
  "generate_conformers_body env n_rdkit_confs n_siman_confs m tr =
     (let m1 = m\<lparr>conformers := Some []\<rparr>
      in case sample_conf_atoms_list env n_rdkit_confs n_siman_confs m1 tr of
           None \<Rightarrow> None
         | Some (Inl e, tr1) \<Rightarrow> Some (Raised e m1 tr1)
         | Some (Inr conf_atoms_list, tr1) \<Rightarrow>
             Some (Returned
                     (m1\<lparr>conformers := Some (conformers_loop env m1 0 conf_atoms_list [])\<rparr>)
                     tr1))"

text \<open>
  The filter in the words of the specification, on bare geometries: candidates are taken
  in order; one that is closer than the threshold to an already accepted geometry is
  dropped, any other joins the accepted ones.
\<close>

fun greedy_unique :: "env \<Rightarrow> atom list list \<Rightarrow> atom list list \<Rightarrow> atom list list" where
  "greedy_unique env accepted [] = accepted"
| "greedy_unique env accepted (g # gs) =
     (if list_ex (\<lambda>a. calc_rmsd env g a < rmsd_tol env) accepted
      then greedy_unique env accepted gs
      else greedy_unique env (accepted @ [g]) gs)"

text \<open>
  The later of two conformers is at least the threshold away from the earlier one, the
  distance taken as the filter takes it: candidate first, accepted conformer second.
\<close>

definition far_apart :: "env \<Rightarrow> conformer \<Rightarrow> conformer \<Rightarrow> bool" where
  "far_apart env earlier later \<longleftrightarrow>
     rmsd_tol env \<le> calc_rmsd env (conf_atoms later) (conf_atoms earlier)"

text \<open>
  Candidate \<open>k\<close> is accepted by the loop: it is unique against what the loop accepted from
  the candidates before it.
\<close>

definition accepted_at :: "env \<Rightarrow> molecule \<Rightarrow> atom list list \<Rightarrow> nat \<Rightarrow> bool" where
  "accepted_at env m cands k =
     conf_is_unique_rmsd env
       (Conformer (name m @ ''_conf'' @ str_of_nat k) (charge m) (mult m) (cands ! k))
       (conformers_loop env m 0 (take k cands) [])"

definition Molecule_generate_conformers ::
  "env \<Rightarrow> int \<Rightarrow> int \<Rightarrow> molecule \<Rightarrow> event list \<Rightarrow> outcome option" where
  "Molecule_generate_conformers env n_rdkit_confs n_siman_confs =
     requires_atoms (generate_conformers_body env n_rdkit_confs n_siman_confs)
                    (\<lambda>e m tr. Some (Raised e m tr))"

section \<open>Optimisation\<close>

text \<open>
  \<^verbatim>\<open>Molecule.optimise\<close>. The file is written from the atoms the molecule has at that
  point.
\<close>

definition optimise_calculation :: "env \<Rightarrow> qm_method \<Rightarrow> molecule \<Rightarrow> calculation" where
  "optimise_calculation env mth m =
     \<lparr>calc_name = name m @ ''_opt'', calc_molecule = m, calc_method = mth,
      keywords_list = keywords_opt mth, calc_n_cores = n_cores env, calc_opt = True\<rparr>"

definition optimised_filename :: "qm_method \<Rightarrow> molecule \<Rightarrow> string" where
  "optimised_filename mth m = name m @ ''_optimised_'' @ method_name mth @ ''.xyz''"

definition optimise_body :: "env \<Rightarrow> qm_method \<Rightarrow> molecule \<Rightarrow> event list \<Rightarrow> outcome" where
  "optimise_body env mth m tr =
     (let opt = optimise_calculation env mth m;
          tr1 = tr @ [Call_calculation_run (calc_name opt)]
      in case calculation_run env opt of
           Inl e \<Rightarrow> Raised e m tr1
         | Inr out \<Rightarrow>
             (case get_energy out of
                Inl e \<Rightarrow> Raised e m tr1
              | Inr en \<Rightarrow>
                  (let m1 = m\<lparr>energy := Some en\<rparr>
                   in case get_final_atoms out of
                        Inl e \<Rightarrow> Raised e m1 tr1
                      | Inr as \<Rightarrow>
                          (let m2 = set_atoms (Some as) m1;
                               tr2 = tr1 @ [Call_print_xyz_file (optimised_filename mth m2)
                                                                (atoms m2)]
                           in case print_xyz_file env (optimised_filename mth m2) (atoms m2) of
                                Some e \<Rightarrow> Raised e m2 tr2
                              | None \<Rightarrow> Returned m2 tr2))))"

definition Molecule_optimise :: "env \<Rightarrow> qm_method \<Rightarrow> molecule \<Rightarrow> event list \<Rightarrow> outcome" where
  "Molecule_optimise env mth = requires_atoms (optimise_body env mth) Raised"

text \<open>
  The loop \<^verbatim>\<open>for i, charge in enumerate(opt.get_atomic_charges())\<close> of
  \<^verbatim>\<open>SolvatedMolecule.optimise\<close>, from index \<open>i\<close> on. It returns the exception raised, if
  any, and the molecule as the loop leaves it.
\<close>

fun set_node_charges :: "nat \<Rightarrow> real list \<Rightarrow> molecule \<Rightarrow> error option \<times> molecule" where
  "set_node_charges i [] m = (None, m)"
| "set_node_charges i (c # cs) m =
     (case graph m of
        None \<Rightarrow> (Some AttributeError, m)
      | Some g \<Rightarrow>
          (case nodes g i of
             None \<Rightarrow> (Some (KeyError i), m)
           | Some node \<Rightarrow>
               set_node_charges (Suc i) cs
                 (m\<lparr>graph := Some (g\<lparr>nodes := (nodes g)(i \<mapsto> node(''charge'' \<mapsto> Attr_float c))\<rparr>)\<rparr>)))"

text \<open>
  \<^verbatim>\<open>SolvatedMolecule.optimise\<close>: the steps of \<^verbatim>\<open>Molecule.optimise\<close> (written out again in
  the source, not called), the node charges, the explicit-solvent search with
  \<^verbatim>\<open>n_confs=96\<close>, and the three assignments from its result.
\<close>

definition solvated_tail :: "env \<Rightarrow> qm_method \<Rightarrow> calc_output \<Rightarrow> molecule \<Rightarrow> event list \<Rightarrow> outcome" where
  "solvated_tail env mth out m2 tr2 =
     (case get_atomic_charges out of
        Inl e \<Rightarrow> Raised e m2 tr2
      | Inr charges \<Rightarrow>
          (case set_node_charges 0 charges m2 of
             (Some e, m3) \<Rightarrow> Raised e m3 tr2
           | (None, m3) \<Rightarrow>
               (let tr3 = tr2 @ [Call_do_explicit_solvent_qmmm 96]
                in case do_explicit_solvent_qmmm env m3 (solvent_mol m3) mth 96 of
                     Inl e \<Rightarrow> Raised e m3 tr3
                   | Inr (u, species_atoms, qm_atoms, mm_atoms) \<Rightarrow>
                       Returned ((set_atoms (Some species_atoms) m3)
                                   \<lparr>qm_solvent_atoms := Some qm_atoms,
                                    mm_solvent_atoms := Some mm_atoms\<rparr>) tr3)))"

definition solvated_optimise_body :: "env \<Rightarrow> qm_method \<Rightarrow> molecule \<Rightarrow> event list \<Rightarrow> outcome" where
  "solvated_optimise_body env mth m tr =
     (let opt = optimise_calculation env mth m;
          tr1 = tr @ [Call_calculation_run (calc_name opt)]
      in case calculation_run env opt of
           Inl e \<Rightarrow> Raised e m tr1
         | Inr out \<Rightarrow>
             (case get_energy out of
                Inl e \<Rightarrow> Raised e m tr1
              | Inr en \<Rightarrow>
                  (let m1 = m\<lparr>energy := Some en\<rparr>
                   in case get_final_atoms out of
                        Inl e \<Rightarrow> Raised e m1 tr1
                      | Inr as \<Rightarrow>
                          (let m2 = set_atoms (Some as) m1;
                               tr2 = tr1 @ [Call_print_xyz_file (optimised_filename mth m2)
                                                                (atoms m2)]
                           in case print_xyz_file env (optimised_filename mth m2) (atoms m2) of
                                Some e \<Rightarrow> Raised e m2 tr2
                              | None \<Rightarrow> solvated_tail env mth out m2 tr2))))"

definition SolvatedMolecule_optimise :: "env \<Rightarrow> qm_method \<Rightarrow> molecule \<Rightarrow> event list \<Rightarrow> outcome" where
  "SolvatedMolecule_optimise env mth = requires_atoms (solvated_optimise_body env mth) Raised"

text \<open>
  What the charge loop may change in a graph: the \<^verbatim>\<open>'charge'\<close> attribute of nodes that
  exist. Node set, edges and every other attribute stay.
\<close>

definition node_charges_only :: "mol_graph option \<Rightarrow> mol_graph option \<Rightarrow> bool" where
  "node_charges_only G G' =
     (case (G, G') of
        (None, None) \<Rightarrow> True
      | (Some g, Some g') \<Rightarrow>
          edges g' = edges g \<and> dom (nodes g') = dom (nodes g) \<and>
          (\<forall>k \<in> dom (nodes g). \<forall>a. a \<noteq> ''charge'' \<longrightarrow> the (nodes g' k) a = the (nodes g k) a)
      | _ \<Rightarrow> False)"

text \<open>
  A graph in which the first \<open>k\<close> charges of \<open>cs\<close> have been written onto the nodes
  \<open>i0, i0 + 1, ...\<close> that exist; used to say what the charge loop leaves behind.
\<close>

definition with_charges :: "mol_graph \<Rightarrow> nat \<Rightarrow> real list \<Rightarrow> nat \<Rightarrow> mol_graph" where
  "with_charges g i0 cs k =
     g\<lparr>nodes := (\<lambda>i. if i0 \<le> i \<and> i < i0 + k
                      then map_option (\<lambda>node. node(''charge'' \<mapsto> Attr_float (cs ! (i - i0))))
                                      (nodes g i)
                      else nodes g i)\<rparr>"

section \<open>Observing outcomes\<close>

fun molecule_of :: "outcome \<Rightarrow> molecule" where
  "molecule_of (Returned m tr) = m"
| "molecule_of (Raised e m tr) = m"

fun trace_of :: "outcome \<Rightarrow> event list" where
  "trace_of (Returned m tr) = tr"
| "trace_of (Raised e m tr) = tr"

fun raised :: "outcome \<Rightarrow> error option" where
  "raised (Returned m tr) = None"
| "raised (Raised e m tr) = Some e"

section \<open>Concrete inputs\<close>

text \<open>
  A water molecule built from three atoms, a method, and collaborators that all succeed:
  the engine returns an energy, a refined geometry and three charges. The distance used
  for the examples is the gap between the first atoms' first coordinates.
\<close>

definition water_atoms :: "atom list" where
  "water_atoms = [Atom ''O'' 0 0 0, Atom ''H'' 1 0 0, Atom ''H'' 0 1 0]"

definition water_refined :: "atom list" where
  "water_refined = [Atom ''O'' 0 0 0, Atom ''H'' 0.96 0 0, Atom ''H'' (-0.24) 0.93 0]"

definition water_graph :: mol_graph where
  "water_graph =
     \<lparr>nodes = [0 \<mapsto> [''atom_label'' \<mapsto> Attr_str ''O''],
               1 \<mapsto> [''atom_label'' \<mapsto> Attr_str ''H''],
               2 \<mapsto> [''atom_label'' \<mapsto> Attr_str ''H'']],
      edges = [(0, 1), (0, 2)]\<rparr>"

definition water :: molecule where
  "water = (Molecule_init_fields ''water'' None (Some water_atoms) None 0 1)
             \<lparr>graph := Some water_graph\<rparr>"

definition xtb :: qm_method where
  "xtb = \<lparr>method_name = ''xtb'', keywords_opt = [''--opt'']\<rparr>"

definition water_output :: calc_output where
  "water_output =
     \<lparr>get_energy = Inr (-5.07), get_final_atoms = Inr water_refined,
      get_atomic_charges = Inr [-0.56, 0.28, 0.28]\<rparr>"

fun first_x :: "atom list \<Rightarrow> real" where
  "first_x [] = 0"
| "first_x (Atom el x y z # as) = x"

definition example_env :: env where
  "example_env =
     \<lparr>metals = [''Li'', ''Sc'', ''Fe'', ''Pd''],
      n_cores = 4,
      init_smiles = (\<lambda>m s. Inr (set_atoms (Some water_atoms) m)),
      init_organic_smiles = (\<lambda>m s. Inr (set_atoms (Some water_atoms) m)),
      make_graph = (\<lambda>m. Inr (m\<lparr>graph := Some water_graph\<rparr>)),
      EmbedMultipleConfs = (\<lambda>obj n params. Inr [0, 1]),
      get_atoms_from_rdkit_mol_object = (\<lambda>obj i. Inr water_atoms),
      get_simanl_atoms = (\<lambda>m i. Inr water_atoms),
      completion_order = [],
      calc_rmsd = (\<lambda>a b. \<bar>first_x a - first_x b\<bar>),
      rmsd_tol = 0.5,
      calculation_run = (\<lambda>c. Inr water_output),
      print_xyz_file = (\<lambda>fn as. None),
      do_explicit_solvent_qmmm =
        (\<lambda>m s mth n. Inr (-5.2, water_refined, [Atom ''O'' 3 0 0], [Atom ''O'' 6 0 0]))\<rparr>"

text \<open>
  Initialisers that can be told apart by their result: the metal one marks embedding as
  not viable, the organic one stores an RDKit object built from the SMILES string.
\<close>

definition dispatch_env :: env where
  "dispatch_env =
     example_env\<lparr>init_smiles :=
                   (\<lambda>m s. Inr ((set_atoms (Some water_atoms) m)
                                  \<lparr>rdkit_conf_gen_is_fine := False\<rparr>)),
                 init_organic_smiles :=
                   (\<lambda>m s. Inr ((set_atoms (Some water_atoms) m)
                                  \<lparr>rdkit_mol_obj := Some (RDKit_mol s)\<rparr>))\<rparr>"

text \<open>
  Variations: an engine that does not converge, one whose geometry cannot be extracted, one
  that returns two charges for the three atoms, and an explicit-solvent search that fails.
  \<open>node_charge\<close> reads the \<^verbatim>\<open>'charge'\<close> attribute of a node.
\<close>

definition node_charge :: "molecule \<Rightarrow> nat \<Rightarrow> attr option" where
  "node_charge m i =
     (case graph m of
        None \<Rightarrow> None
      | Some g \<Rightarrow> (case nodes g i of None \<Rightarrow> None | Some node \<Rightarrow> node ''charge''))"

definition not_converged_env :: env where
  "not_converged_env =
     example_env\<lparr>calculation_run := (\<lambda>c. Inl (CollaboratorError ''not converged''))\<rparr>"

definition no_geometry_output :: calc_output where
  "no_geometry_output = water_output\<lparr>get_final_atoms := Inl (CollaboratorError ''no geometry'')\<rparr>"

definition no_geometry_env :: env where
  "no_geometry_env = example_env\<lparr>calculation_run := (\<lambda>c. Inr no_geometry_output)\<rparr>"

definition short_charges_output :: calc_output where
  "short_charges_output = water_output\<lparr>get_atomic_charges := Inr [-0.56, 0.28]\<rparr>"

definition short_charges_env :: env where
  "short_charges_env = example_env\<lparr>calculation_run := (\<lambda>c. Inr short_charges_output)\<rparr>"

definition qmmm_fails_env :: env where
  "qmmm_fails_env =
     example_env\<lparr>do_explicit_solvent_qmmm :=
                   (\<lambda>m s mth n. Inl (CollaboratorError ''solvent search''))\<rparr>"

text \<open>What the constructor has built when it is given neither atoms nor SMILES.\<close>

definition no_atoms_molecule :: molecule where
  "no_atoms_molecule = (Molecule_init_fields ''empty'' None None None 0 1)\<lparr>graph := Some water_graph\<rparr>"

text \<open>
  Five annealing runs on water whose results differ in the position of the oxygen: runs 1
  and 3 end within the threshold of runs 0 and 2. The workers finish out of order.
\<close>

definition anneal_atoms :: "nat \<Rightarrow> atom list" where
  "anneal_atoms i =
     [Atom ''O'' ([0, 0.1, 1, 1.05, 2] ! i) 0 0, Atom ''H'' 1 0 0, Atom ''H'' 0 1 0]"

definition anneal_env :: env where
  "anneal_env =
     example_env\<lparr>get_simanl_atoms := (\<lambda>m i. Inr (anneal_atoms i)),
                 completion_order := [4, 2, 0, 3, 1]\<rparr>"

definition conformer_names :: "outcome option \<Rightarrow> string list" where
  "conformer_names r =
     (case r of
        None \<Rightarrow> []
      | Some oc \<Rightarrow> (case conformers (molecule_of oc) of None \<Rightarrow> [] | Some cs \<Rightarrow> map conf_name cs))"

definition conformer_geometries :: "outcome option \<Rightarrow> atom list list" where
  "conformer_geometries r =
     (case r of
        None \<Rightarrow> []
      | Some oc \<Rightarrow> (case conformers (molecule_of oc) of None \<Rightarrow> [] | Some cs \<Rightarrow> map conf_atoms cs))"

section \<open>SMILES dispatch\<close>

lemma starts_with_iff: "starts_with s a \<longleftrightarrow> prefix a s"
  by (induction s a rule: starts_with.induct) auto

lemma str_in_iff_sublist: "str_in a s \<longleftrightarrow> sublist a s"
  by (induction s) (auto simp: starts_with_iff sublist_Cons_right)

lemma str_in_iff: "str_in a s \<longleftrightarrow> (\<exists>pre post. s = pre @ a @ post)"
  by (simp add: str_in_iff_sublist sublist_def)


lemma init_smiles_trace:
  "trace_of (Molecule_init_smiles env smi m tr) =
     tr @ [if (\<exists>metal \<in> set (metals env). \<exists>pre post. smi = pre @ metal @ post)
           then Call_init_smiles smi else Call_init_organic_smiles smi]"
  by (simp add: Molecule_init_smiles_def list_ex_iff str_in_iff split: sum.splits)

lemma init_smiles_outcome:
  "Molecule_init_smiles env smi m tr =
     (if (\<exists>metal \<in> set (metals env). \<exists>pre post. smi = pre @ metal @ post)
      then (case init_smiles env m smi of
              Inl e \<Rightarrow> Raised e m (tr @ [Call_init_smiles smi])
            | Inr m' \<Rightarrow> Returned m' (tr @ [Call_init_smiles smi]))
      else (case init_organic_smiles env m smi of
              Inl e \<Rightarrow> Raised e m (tr @ [Call_init_organic_smiles smi])
            | Inr m' \<Rightarrow> Returned m' (tr @ [Call_init_organic_smiles smi])))"
  by (simp add: Molecule_init_smiles_def list_ex_iff str_in_iff)

text \<open>
  Claim C10. For every SMILES string, the outcome of \<^verbatim>\<open>_init_smiles\<close> is the outcome of
  the metal initialiser, applied to the molecule and the string, if some entry of
  \<open>metals\<close> occurs in the text as a run of characters, and the outcome of the organic
  initialiser otherwise: what it returns or raises is what the chosen initialiser returns
  or raises, and the call recorded is the call to that initialiser. The constructor does
  the same for every non-empty SMILES string, followed by its atom check, and treats an
  empty one as no SMILES (it calls \<^verbatim>\<open>make_graph\<close>). Nothing but the characters is looked
  at, so an organic SMILES that contains a metal symbol goes to the metal initialiser.
\<close>

theorem init_smiles_dispatch_by_substring:
  "Molecule_init_smiles env smi m tr =
     (if (\<exists>metal \<in> set (metals env). \<exists>pre post. smi = pre @ metal @ post)
      then (case init_smiles env m smi of
              Inl e \<Rightarrow> Raised e m (tr @ [Call_init_smiles smi])
            | Inr m' \<Rightarrow> Returned m' (tr @ [Call_init_smiles smi]))
      else (case init_organic_smiles env m smi of
              Inl e \<Rightarrow> Raised e m (tr @ [Call_init_organic_smiles smi])
            | Inr m' \<Rightarrow> Returned m' (tr @ [Call_init_organic_smiles smi])))
   \<and> (smi \<noteq> [] \<longrightarrow>
        Molecule_init env nm (Some smi) as sn chg mlt tr =
          (case Molecule_init_smiles env smi
                  (Molecule_init_fields nm (Some smi) as sn chg mlt) tr of
             Raised e m' tr' \<Rightarrow> Raised e m' tr'
           | Returned m' tr' \<Rightarrow>
               if n_atoms m' = 0 then Raised NoAtomsInMolecule m' tr' else Returned m' tr'))
   \<and> trace_of (Molecule_init_smiles env smi m tr) =
        tr @ [if (\<exists>metal \<in> set (metals env). \<exists>pre post. smi = pre @ metal @ post)
              then Call_init_smiles smi else Call_init_organic_smiles smi]
   \<and> (smi \<noteq> [] \<longrightarrow>
        trace_of (Molecule_init env nm (Some smi) as sn chg mlt tr) =
          tr @ [if (\<exists>metal \<in> set (metals env). \<exists>pre post. smi = pre @ metal @ post)
                then Call_init_smiles smi else Call_init_organic_smiles smi])
   \<and> trace_of (Molecule_init env nm (Some []) as sn chg mlt tr) = tr @ [Call_make_graph]"
proof (intro conjI)
  show "Molecule_init_smiles env smi m tr =
     (if (\<exists>metal \<in> set (metals env). \<exists>pre post. smi = pre @ metal @ post)
      then (case init_smiles env m smi of
              Inl e \<Rightarrow> Raised e m (tr @ [Call_init_smiles smi])
            | Inr m' \<Rightarrow> Returned m' (tr @ [Call_init_smiles smi]))
      else (case init_organic_smiles env m smi of
              Inl e \<Rightarrow> Raised e m (tr @ [Call_init_organic_smiles smi])
            | Inr m' \<Rightarrow> Returned m' (tr @ [Call_init_organic_smiles smi])))"
    by (rule init_smiles_outcome)
next
  show "smi \<noteq> [] \<longrightarrow>
        Molecule_init env nm (Some smi) as sn chg mlt tr =
          (case Molecule_init_smiles env smi
                  (Molecule_init_fields nm (Some smi) as sn chg mlt) tr of
             Raised e m' tr' \<Rightarrow> Raised e m' tr'
           | Returned m' tr' \<Rightarrow>
               if n_atoms m' = 0 then Raised NoAtomsInMolecule m' tr' else Returned m' tr')"
    by (simp add: Molecule_init_def Let_def)
next
  show "trace_of (Molecule_init env nm (Some []) as sn chg mlt tr) = tr @ [Call_make_graph]"
    by (simp add: Molecule_init_def Let_def split: sum.splits)
next
  show "trace_of (Molecule_init_smiles env smi m tr) =
     tr @ [if (\<exists>metal \<in> set (metals env). \<exists>pre post. smi = pre @ metal @ post)
           then Call_init_smiles smi else Call_init_organic_smiles smi]"
    by (rule init_smiles_trace)
next
  show "smi \<noteq> [] \<longrightarrow>
        trace_of (Molecule_init env nm (Some smi) as sn chg mlt tr) =
          tr @ [if (\<exists>metal \<in> set (metals env). \<exists>pre post. smi = pre @ metal @ post)
                then Call_init_smiles smi else Call_init_organic_smiles smi]"
  proof
    assume ne: "smi \<noteq> []"
    have "trace_of (Molecule_init env nm (Some smi) as sn chg mlt tr) =
          trace_of (Molecule_init_smiles env smi
                      (Molecule_init_fields nm (Some smi) as sn chg mlt) tr)"
      using ne unfolding Molecule_init_def Let_def
      by (cases "Molecule_init_smiles env smi
                   (Molecule_init_fields nm (Some smi) as sn chg mlt) tr") simp_all
    then show "trace_of (Molecule_init env nm (Some smi) as sn chg mlt tr) =
          tr @ [if (\<exists>metal \<in> set (metals env). \<exists>pre post. smi = pre @ metal @ post)
                then Call_init_smiles smi else Call_init_organic_smiles smi]"
      by (simp only: init_smiles_trace)
  qed
qed

text \<open>
  Thioanisole, \<^verbatim>\<open>CSc1ccccc1\<close>, has no metal atom: its sulfur is followed by an aromatic
  carbon, which spells \<^verbatim>\<open>Sc\<close>. With initialisers whose results differ, the molecule
  that comes back is the metal initialiser's, from \<^verbatim>\<open>_init_smiles\<close> and from the
  constructor; ethanol gets the organic initialiser's.
\<close>

theorem init_smiles_dispatch_thioanisole:
  "Molecule_init_smiles dispatch_env ''CSc1ccccc1'' water [] =
     Returned ((set_atoms (Some water_atoms) water)\<lparr>rdkit_conf_gen_is_fine := False\<rparr>)
              [Call_init_smiles ''CSc1ccccc1'']
   \<and> Molecule_init dispatch_env ''thioanisole'' (Some ''CSc1ccccc1'') None None 0 1 [] =
     Returned ((set_atoms (Some water_atoms)
                  (Molecule_init_fields ''thioanisole'' (Some ''CSc1ccccc1'') None None 0 1))
                 \<lparr>rdkit_conf_gen_is_fine := False\<rparr>)
              [Call_init_smiles ''CSc1ccccc1'']
   \<and> Molecule_init_smiles dispatch_env ''CCO'' water [] =
     Returned ((set_atoms (Some water_atoms) water)\<lparr>rdkit_mol_obj := Some (RDKit_mol ''CCO'')\<rparr>)
              [Call_init_organic_smiles ''CCO'']"
proof -
  have sc: "\<exists>metal \<in> set (metals dispatch_env).
              \<exists>pre post. ''CSc1ccccc1'' = pre @ metal @ post"
    unfolding str_in_iff [symmetric] by (simp add: dispatch_env_def example_env_def)
  have cco: "\<not> (\<exists>metal \<in> set (metals dispatch_env). \<exists>pre post. ''CCO'' = pre @ metal @ post)"
    unfolding str_in_iff [symmetric] by (simp add: dispatch_env_def example_env_def)
  have i: "\<And>m s. init_smiles dispatch_env m s =
             Inr ((set_atoms (Some water_atoms) m)\<lparr>rdkit_conf_gen_is_fine := False\<rparr>)"
    and o: "\<And>m s. init_organic_smiles dispatch_env m s =
             Inr ((set_atoms (Some water_atoms) m)\<lparr>rdkit_mol_obj := Some (RDKit_mol s)\<rparr>)"
    by (simp_all add: dispatch_env_def)
  have n: "\<And>m. n_atoms (set_atoms (Some water_atoms) m) = 3"
    by (simp add: set_atoms_def water_atoms_def)
  note t1 = init_smiles_dispatch_by_substring
              [of dispatch_env "''CSc1ccccc1''" water "[]" "''thioanisole''" None None 0 1]
  note t2 = init_smiles_dispatch_by_substring
              [of dispatch_env "''CSc1ccccc1''"
                  "Molecule_init_fields ''thioanisole'' (Some ''CSc1ccccc1'') None None 0 1"
                  "[]" "''thioanisole''" None None 0 1]
  note t3 = init_smiles_dispatch_by_substring
              [of dispatch_env "''CCO''" water "[]" "''ethanol''" None None 0 1]
  have a: "Molecule_init_smiles dispatch_env ''CSc1ccccc1'' water [] =
     Returned ((set_atoms (Some water_atoms) water)\<lparr>rdkit_conf_gen_is_fine := False\<rparr>)
              [Call_init_smiles ''CSc1ccccc1'']"
    using t1 [THEN conjunct1] sc by (simp add: i)
  have b0: "Molecule_init_smiles dispatch_env ''CSc1ccccc1''
              (Molecule_init_fields ''thioanisole'' (Some ''CSc1ccccc1'') None None 0 1) [] =
     Returned ((set_atoms (Some water_atoms)
                  (Molecule_init_fields ''thioanisole'' (Some ''CSc1ccccc1'') None None 0 1))
                 \<lparr>rdkit_conf_gen_is_fine := False\<rparr>)
              [Call_init_smiles ''CSc1ccccc1'']"
    using t2 [THEN conjunct1] sc by (simp add: i)
  have b: "Molecule_init dispatch_env ''thioanisole'' (Some ''CSc1ccccc1'') None None 0 1 [] =
     Returned ((set_atoms (Some water_atoms)
                  (Molecule_init_fields ''thioanisole'' (Some ''CSc1ccccc1'') None None 0 1))
                 \<lparr>rdkit_conf_gen_is_fine := False\<rparr>)
              [Call_init_smiles ''CSc1ccccc1'']"
    using t2 [THEN conjunct2, THEN conjunct1] by (simp add: b0 n)
  have c: "Molecule_init_smiles dispatch_env ''CCO'' water [] =
     Returned ((set_atoms (Some water_atoms) water)\<lparr>rdkit_mol_obj := Some (RDKit_mol ''CCO'')\<rparr>)
              [Call_init_organic_smiles ''CCO'']"
    using t3 [THEN conjunct1] cco by (simp add: o)
  from a b c show ?thesis by (intro conjI)
qed

section \<open>Vacuum optimisation\<close>

lemma requires_atoms_zero:
  "n_atoms m = 0 \<Longrightarrow> requires_atoms f r m tr = r NoAtomsInSpecies m tr"
  by (simp add: requires_atoms_def)

lemma requires_atoms_pos: "n_atoms m \<noteq> 0 \<Longrightarrow> requires_atoms f r m tr = f m tr"
  by (simp add: requires_atoms_def)

lemma water_fields: "n_atoms water = 3" "name water = ''water''"
  by (simp_all add: water_def Molecule_init_fields_def Species_init_def water_atoms_def)

lemma optimise_body_Returned_iff:
  "optimise_body env mth m tr = Returned m' tr' \<longleftrightarrow>
     (\<exists>out en as.
         calculation_run env (optimise_calculation env mth m) = Inr out \<and>
         get_energy out = Inr en \<and> get_final_atoms out = Inr as \<and>
         print_xyz_file env (name m @ ''_optimised_'' @ method_name mth @ ''.xyz'') (Some as)
           = None \<and>
         m' = m\<lparr>energy := Some en, atoms := Some as, n_atoms := length as\<rparr> \<and>
         tr' = tr @ [Call_calculation_run (name m @ ''_opt''),
                     Call_print_xyz_file
                       (name m @ ''_optimised_'' @ method_name mth @ ''.xyz'') (Some as)])"
  by (auto simp: optimise_body_def Let_def set_atoms_def optimised_filename_def
                 optimise_calculation_def
           split: sum.splits option.splits)

text \<open>
  Claim C4. \<^verbatim>\<open>Molecule.optimise\<close> returns exactly when the molecule has atoms, the engine
  run, the two extractions and the writer all succeed; the molecule then differs from
  the one before the call in its energy, which is the engine's energy, and in its atom
  sequence (with the count), which is the engine's refined geometry; and that geometry
  was handed to the writer under \<^verbatim>\<open><name>_optimised_<method name>.xyz\<close>.
\<close>

theorem optimise_success_replaces_energy_and_atoms:
  "Molecule_optimise env mth m tr = Returned m' tr' \<longleftrightarrow>
     n_atoms m \<noteq> 0 \<and>
     (\<exists>out en as.
         calculation_run env (optimise_calculation env mth m) = Inr out \<and>
         get_energy out = Inr en \<and> get_final_atoms out = Inr as \<and>
         print_xyz_file env (name m @ ''_optimised_'' @ method_name mth @ ''.xyz'') (Some as)
           = None \<and>
         m' = m\<lparr>energy := Some en, atoms := Some as, n_atoms := length as\<rparr> \<and>
         tr' = tr @ [Call_calculation_run (name m @ ''_opt''),
                     Call_print_xyz_file
                       (name m @ ''_optimised_'' @ method_name mth @ ''.xyz'') (Some as)])"
proof (cases "n_atoms m = 0")
  case True
  then show ?thesis by (simp add: Molecule_optimise_def requires_atoms_zero)
next
  case False
  then show ?thesis
    by (simp only: Molecule_optimise_def requires_atoms_pos optimise_body_Returned_iff simp_thms)
qed

theorem optimise_success_water:
  "Molecule_optimise example_env xtb water [] =
     Returned (water\<lparr>energy := Some (-5.07), atoms := Some water_refined, n_atoms := 3\<rparr>)
       [Call_calculation_run ''water_opt'',
        Call_print_xyz_file ''water_optimised_xtb.xyz'' (Some water_refined)]"
proof -
  have "calculation_run example_env (optimise_calculation example_env xtb water)
          = Inr water_output"
    by (simp add: example_env_def)
  moreover have "get_energy water_output = Inr (-5.07)"
    and "get_final_atoms water_output = Inr water_refined"
    by (simp_all add: water_output_def)
  moreover have "print_xyz_file example_env
                   (name water @ ''_optimised_'' @ method_name xtb @ ''.xyz'')
                   (Some water_refined) = None"
    by (simp add: example_env_def)
  moreover have "length water_refined = 3"
    by (simp add: water_refined_def)
  ultimately show ?thesis
    using optimise_success_replaces_energy_and_atoms
            [of example_env xtb water "[]"
                "water\<lparr>energy := Some (-5.07), atoms := Some water_refined, n_atoms := 3\<rparr>"
                "[Call_calculation_run ''water_opt'',
                  Call_print_xyz_file ''water_optimised_xtb.xyz'' (Some water_refined)]"]
    by (simp add: water_fields xtb_def)
qed

section \<open>The charge loop\<close>

lemma with_charges_0: "with_charges g i0 cs 0 = g"
proof -
  have "(\<lambda>i. if i0 \<le> i \<and> i < i0 + 0
              then map_option (\<lambda>node. node(''charge'' \<mapsto> Attr_float (cs ! (i - i0))))
                     (nodes g i)
              else nodes g i) = nodes g"
    by (rule ext) auto
  then show ?thesis unfolding with_charges_def by simp
qed

lemma with_charges_step:
  assumes "nodes g i0 = Some node"
  shows "with_charges (g\<lparr>nodes := (nodes g)(i0 \<mapsto> node(''charge'' \<mapsto> Attr_float c))\<rparr>) (Suc i0) cs k
         = with_charges g i0 (c # cs) (Suc k)"
proof -
  let ?g1 = "g\<lparr>nodes := (nodes g)(i0 \<mapsto> node(''charge'' \<mapsto> Attr_float c))\<rparr>"
  have "(\<lambda>i. if Suc i0 \<le> i \<and> i < Suc i0 + k
              then map_option (\<lambda>node. node(''charge'' \<mapsto> Attr_float (cs ! (i - Suc i0))))
                     (nodes ?g1 i)
              else nodes ?g1 i)
      = (\<lambda>i. if i0 \<le> i \<and> i < i0 + Suc k
              then map_option (\<lambda>node. node(''charge'' \<mapsto> Attr_float ((c # cs) ! (i - i0))))
                     (nodes g i)
              else nodes g i)"
  proof (rule ext)
    fix i
    show "(if Suc i0 \<le> i \<and> i < Suc i0 + k
              then map_option (\<lambda>node. node(''charge'' \<mapsto> Attr_float (cs ! (i - Suc i0))))
                     (nodes ?g1 i)
              else nodes ?g1 i)
      = (if i0 \<le> i \<and> i < i0 + Suc k
              then map_option (\<lambda>node. node(''charge'' \<mapsto> Attr_float ((c # cs) ! (i - i0))))
                     (nodes g i)
              else nodes g i)"
    proof (cases "i = i0")
      case True
      then show ?thesis using assms by simp
    next
      case False
      then show ?thesis by (auto simp: nth_Cons' Suc_diff_Suc)
    qed
  qed
  then show ?thesis unfolding with_charges_def by simp
qed

lemma set_node_charges_closed_form:
  "graph m = Some g \<Longrightarrow> k \<le> length cs \<Longrightarrow> (\<forall>i<k. nodes g (i0 + i) \<noteq> None) \<Longrightarrow>
   (k < length cs \<longrightarrow> nodes g (i0 + k) = None) \<Longrightarrow>
   set_node_charges i0 cs m =
     ((if k < length cs then Some (KeyError (i0 + k)) else None),
      m\<lparr>graph := Some (with_charges g i0 cs k)\<rparr>)"
proof (induction cs arbitrary: i0 m g k)
  case Nil
  then show ?case by (simp add: with_charges_0)
next
  case (Cons c cs)
  show ?case
  proof (cases k)
    case 0
    with Cons.prems show ?thesis by (simp add: with_charges_0)
  next
    case (Suc k')
    with Cons.prems obtain node where node: "nodes g i0 = Some node"
      by (metis add.right_neutral not_None_eq zero_less_Suc)
    let ?g1 = "g\<lparr>nodes := (nodes g)(i0 \<mapsto> node(''charge'' \<mapsto> Attr_float c))\<rparr>"
    let ?m1 = "m\<lparr>graph := Some ?g1\<rparr>"
    have step: "set_node_charges i0 (c # cs) m = set_node_charges (Suc i0) cs ?m1"
      using Cons.prems(1) node by simp
    have g1: "graph ?m1 = Some ?g1" by simp
    have k': "k' \<le> length cs" using Cons.prems(2) Suc by simp
    have ok: "\<forall>i<k'. nodes ?g1 (Suc i0 + i) \<noteq> None"
      using Cons.prems(3) Suc by auto
    have stop: "k' < length cs \<longrightarrow> nodes ?g1 (Suc i0 + k') = None"
      using Cons.prems(4) Suc by auto
    have "set_node_charges (Suc i0) cs ?m1 =
            ((if k' < length cs then Some (KeyError (Suc i0 + k')) else None),
             ?m1\<lparr>graph := Some (with_charges ?g1 (Suc i0) cs k')\<rparr>)"
      by (rule Cons.IH [OF g1 k' ok stop])
    then show ?thesis
      using step Suc by (simp add: with_charges_step [OF node])
  qed
qed

lemma set_node_charges_no_graph:
  "graph m = None \<Longrightarrow> set_node_charges i0 cs m = ((if cs = [] then None else Some AttributeError), m)"
  by (cases cs) simp_all

lemma set_node_charges_frame:
  "set_node_charges i cs m = (r, m') \<Longrightarrow> m' = m\<lparr>graph := graph m'\<rparr>"
proof (induction i cs m rule: set_node_charges.induct)
  case (1 i m)
  then show ?case by simp
next
  case (2 i c cs m)
  show ?case
  proof (cases "graph m")
    case None
    with 2 show ?thesis by simp
  next
    case (Some g)
    show ?thesis
    proof (cases "nodes g i")
      case None
      with 2 Some show ?thesis by simp
    next
      case (Some node)
      with 2 \<open>graph m = Some g\<close> show ?thesis by fastforce
    qed
  qed
qed

lemma nco_refl: "node_charges_only G G"
  by (simp add: node_charges_only_def split: option.splits)

lemma nco_trans:
  "node_charges_only G G' \<Longrightarrow> node_charges_only G' G'' \<Longrightarrow> node_charges_only G G''"
  by (auto simp: node_charges_only_def split: option.splits)

lemma nco_step:
  "nodes g i = Some node \<Longrightarrow>
   node_charges_only (Some g) (Some (g\<lparr>nodes := (nodes g)(i \<mapsto> node(''charge'' \<mapsto> v))\<rparr>))"
  by (auto simp: node_charges_only_def)

lemma set_node_charges_nco:
  "set_node_charges i cs m = (r, m') \<Longrightarrow> node_charges_only (graph m) (graph m')"
proof (induction i cs m rule: set_node_charges.induct)
  case (1 i m)
  then show ?case by (simp add: nco_refl)
next
  case (2 i c cs m)
  show ?case
  proof (cases "graph m")
    case None
    with 2 show ?thesis by (simp add: nco_refl)
  next
    case (Some g)
    show ?thesis
    proof (cases "nodes g i")
      case None
      with 2 Some show ?thesis by (simp add: nco_refl)
    next
      case (Some node)
      let ?g1 = "g\<lparr>nodes := (nodes g)(i \<mapsto> node(''charge'' \<mapsto> Attr_float c))\<rparr>"
      have "set_node_charges (Suc i) cs (m\<lparr>graph := Some ?g1\<rparr>) = (r, m')"
        using 2 Some \<open>graph m = Some g\<close> by simp
      then have "node_charges_only (Some ?g1) (graph m')"
        using "2.IH" [OF \<open>graph m = Some g\<close> Some] by simp
      then show ?thesis
        using nco_trans [OF nco_step [OF Some]] \<open>graph m = Some g\<close> by simp
    qed
  qed
qed

lemma optimise_body_cases:
  "optimise_body env mth m tr =
     (case calculation_run env (optimise_calculation env mth m) of
        Inl e \<Rightarrow> Raised e m (tr @ [Call_calculation_run (name m @ ''_opt'')])
      | Inr out \<Rightarrow>
         (case get_energy out of
            Inl e \<Rightarrow> Raised e m (tr @ [Call_calculation_run (name m @ ''_opt'')])
          | Inr en \<Rightarrow>
             (case get_final_atoms out of
                Inl e \<Rightarrow> Raised e (m\<lparr>energy := Some en\<rparr>) (tr @ [Call_calculation_run (name m @ ''_opt'')])
              | Inr as \<Rightarrow>
                 (case print_xyz_file env (name m @ ''_optimised_'' @ method_name mth @ ''.xyz'') (Some as) of
                    Some e \<Rightarrow> Raised e (m\<lparr>energy := Some en, atoms := Some as, n_atoms := length as\<rparr>)
                               (tr @ [Call_calculation_run (name m @ ''_opt''),
                                      Call_print_xyz_file (name m @ ''_optimised_'' @ method_name mth @ ''.xyz'') (Some as)])
                  | None \<Rightarrow> Returned (m\<lparr>energy := Some en, atoms := Some as, n_atoms := length as\<rparr>)
                               (tr @ [Call_calculation_run (name m @ ''_opt''),
                                      Call_print_xyz_file (name m @ ''_optimised_'' @ method_name mth @ ''.xyz'') (Some as)])))))"
  by (simp add: optimise_body_def Let_def set_atoms_def optimised_filename_def optimise_calculation_def
           split: sum.splits option.splits)


lemma solvated_tail_cases:
  "solvated_tail env mth out m2 tr2 =
     (case get_atomic_charges out of
        Inl e \<Rightarrow> Raised e m2 tr2
      | Inr charges \<Rightarrow>
          (case fst (set_node_charges 0 charges m2) of
             Some e \<Rightarrow> Raised e (snd (set_node_charges 0 charges m2)) tr2
           | None \<Rightarrow>
               (case do_explicit_solvent_qmmm env (snd (set_node_charges 0 charges m2))
                       (solvent_mol (snd (set_node_charges 0 charges m2))) mth 96 of
                  Inl e \<Rightarrow> Raised e (snd (set_node_charges 0 charges m2))
                             (tr2 @ [Call_do_explicit_solvent_qmmm 96])
                | Inr r \<Rightarrow>
                    Returned ((snd (set_node_charges 0 charges m2))
                                \<lparr>atoms := Some (fst (snd r)), n_atoms := length (fst (snd r)),
                                 qm_solvent_atoms := Some (fst (snd (snd r))),
                                 mm_solvent_atoms := Some (snd (snd (snd r)))\<rparr>)
                             (tr2 @ [Call_do_explicit_solvent_qmmm 96]))))"
proof (cases "get_atomic_charges out")
  case (Inl e)
  then show ?thesis by (simp add: solvated_tail_def)
next
  case (Inr charges)
  obtain r m3 where s: "set_node_charges 0 charges m2 = (r, m3)" by (cases "set_node_charges 0 charges m2")
  show ?thesis
  proof (cases r)
    case (Some e)
    then show ?thesis using Inr s by (simp add: solvated_tail_def)
  next
    case None
    show ?thesis
    proof (cases "do_explicit_solvent_qmmm env m3 (solvent_mol m3) mth 96")
      case (Inl e)
      then show ?thesis using Inr s None by (simp add: solvated_tail_def)
    next
      case (Inr q)
      obtain u sa qa ma where q: "q = (u, sa, qa, ma)" by (cases q) auto
      show ?thesis using \<open>get_atomic_charges out = Inr charges\<close> s None Inr q
        by (simp add: solvated_tail_def set_atoms_def)
    qed
  qed
qed

lemma solvated_optimise_body_cases:
  "solvated_optimise_body env mth m tr =
     (case calculation_run env (optimise_calculation env mth m) of
        Inl e \<Rightarrow> Raised e m (tr @ [Call_calculation_run (name m @ ''_opt'')])
      | Inr out \<Rightarrow>
         (case get_energy out of
            Inl e \<Rightarrow> Raised e m (tr @ [Call_calculation_run (name m @ ''_opt'')])
          | Inr en \<Rightarrow>
             (case get_final_atoms out of
                Inl e \<Rightarrow> Raised e (m\<lparr>energy := Some en\<rparr>) (tr @ [Call_calculation_run (name m @ ''_opt'')])
              | Inr as \<Rightarrow>
                 (case print_xyz_file env (name m @ ''_optimised_'' @ method_name mth @ ''.xyz'') (Some as) of
                    Some e \<Rightarrow> Raised e (m\<lparr>energy := Some en, atoms := Some as, n_atoms := length as\<rparr>)
                               (tr @ [Call_calculation_run (name m @ ''_opt''),
                                      Call_print_xyz_file (name m @ ''_optimised_'' @ method_name mth @ ''.xyz'') (Some as)])
                  | None \<Rightarrow> solvated_tail env mth out
                               (m\<lparr>energy := Some en, atoms := Some as, n_atoms := length as\<rparr>)
                               (tr @ [Call_calculation_run (name m @ ''_opt''),
                                      Call_print_xyz_file (name m @ ''_optimised_'' @ method_name mth @ ''.xyz'') (Some as)])))))"
  by (simp add: solvated_optimise_body_def Let_def set_atoms_def optimised_filename_def optimise_calculation_def
           split: sum.splits option.splits)


lemma solvated_tail_frame:
  assumes "m' = molecule_of (solvated_tail env mth out m2 tr2)"
  shows "m' = m2\<lparr>atoms := atoms m', n_atoms := n_atoms m', graph := graph m',
                 qm_solvent_atoms := qm_solvent_atoms m', mm_solvent_atoms := mm_solvent_atoms m'\<rparr>
         \<and> node_charges_only (graph m2) (graph m')"
proof (cases "get_atomic_charges out")
  case (Inl e)
  then show ?thesis using assms by (simp add: solvated_tail_cases nco_refl)
next
  case (Inr charges)
  obtain r m3 where s: "set_node_charges 0 charges m2 = (r, m3)"
    by (cases "set_node_charges 0 charges m2")
  from set_node_charges_frame [OF s] obtain g3 where f: "m3 = m2\<lparr>graph := g3\<rparr>" by blast
  then have g3: "graph m3 = g3" by simp
  have n: "node_charges_only (graph m2) g3"
    using set_node_charges_nco [OF s] g3 by simp
  have "m' = m3 \<or> (\<exists>sa qa ma. m' = m3\<lparr>atoms := Some sa, n_atoms := length sa,
                 qm_solvent_atoms := Some qa, mm_solvent_atoms := Some ma\<rparr>)"
    using assms Inr s by (auto simp: solvated_tail_cases split: option.splits sum.splits)
  then show ?thesis
  proof
    assume "m' = m3"
    then have "m' = m2\<lparr>graph := g3\<rparr>" using f by simp
    then show ?thesis using n by simp
  next
    assume "\<exists>sa qa ma. m' = m3\<lparr>atoms := Some sa, n_atoms := length sa,
                 qm_solvent_atoms := Some qa, mm_solvent_atoms := Some ma\<rparr>"
    then obtain sa qa ma where "m' = m3\<lparr>atoms := Some sa, n_atoms := length sa,
                 qm_solvent_atoms := Some qa, mm_solvent_atoms := Some ma\<rparr>" by blast
    then have "m' = m2\<lparr>graph := g3, atoms := Some sa, n_atoms := length sa,
                 qm_solvent_atoms := Some qa, mm_solvent_atoms := Some ma\<rparr>"
      using f by simp
    then show ?thesis using n by simp
  qed
qed

lemma solvated_tail_raised_fields:
  assumes "solvated_tail env mth out m2 tr2 = Raised e m' tr'"
  shows "qm_solvent_atoms m' = qm_solvent_atoms m2 \<and> mm_solvent_atoms m' = mm_solvent_atoms m2
         \<and> atoms m' = atoms m2 \<and> energy m' = energy m2"
proof (cases "get_atomic_charges out")
  case (Inl e)
  then show ?thesis using assms by (simp add: solvated_tail_cases)
next
  case (Inr charges)
  obtain r m3 where s: "set_node_charges 0 charges m2 = (r, m3)"
    by (cases "set_node_charges 0 charges m2")
  from set_node_charges_frame [OF s] obtain g3 where f: "m3 = m2\<lparr>graph := g3\<rparr>" by blast
  have "m' = m3"
    using assms Inr s by (auto simp: solvated_tail_cases split: option.splits sum.splits)
  then show ?thesis using f by simp
qed


lemma solvated_body_molecule_cases:
  obtains (a) "molecule_of (solvated_optimise_body env mth m tr) = m"
  | (b) en where "molecule_of (solvated_optimise_body env mth m tr) = m\<lparr>energy := Some en\<rparr>"
  | (c) en as where "molecule_of (solvated_optimise_body env mth m tr) =
                       m\<lparr>energy := Some en, atoms := Some as, n_atoms := length as\<rparr>"
  | (d) en as out tr2 where "molecule_of (solvated_optimise_body env mth m tr) =
          molecule_of (solvated_tail env mth out
                         (m\<lparr>energy := Some en, atoms := Some as, n_atoms := length as\<rparr>) tr2)"
proof (cases "calculation_run env (optimise_calculation env mth m)")
  case (Inl e)
  show ?thesis
    by (rule a) (simp add: solvated_optimise_body_cases Inl)
next
  case run: (Inr out)
  show ?thesis
  proof (cases "get_energy out")
    case (Inl e)
    show ?thesis
      by (rule a) (simp add: solvated_optimise_body_cases run Inl)
  next
    case en: (Inr en)
    show ?thesis
    proof (cases "get_final_atoms out")
      case (Inl e)
      show ?thesis
        by (rule b) (simp add: solvated_optimise_body_cases run en Inl)
    next
      case as: (Inr as)
      show ?thesis
      proof (cases "print_xyz_file env (name m @ ''_optimised_'' @ method_name mth @ ''.xyz'')
                      (Some as)")
        case None
        then have "molecule_of (solvated_optimise_body env mth m tr) =
          molecule_of (solvated_tail env mth out
                         (m\<lparr>energy := Some en, atoms := Some as, n_atoms := length as\<rparr>)
                         (tr @ [Call_calculation_run (name m @ ''_opt''),
                                Call_print_xyz_file
                                  (name m @ ''_optimised_'' @ method_name mth @ ''.xyz'')
                                  (Some as)]))"
          using run en as by (simp add: solvated_optimise_body_cases)
        then show ?thesis by (rule d)
      next
        case (Some e)
        then have "molecule_of (solvated_optimise_body env mth m tr) =
                     m\<lparr>energy := Some en, atoms := Some as, n_atoms := length as\<rparr>"
          using run en as by (simp add: solvated_optimise_body_cases)
        then show ?thesis by (rule c)
      qed
    qed
  qed
qed

lemmas water_defs = water_def Molecule_init_fields_def Species_init_def water_atoms_def
  water_graph_def water_refined_def xtb_def water_output_def

lemmas run_defs = requires_atoms_def optimise_body_def solvated_optimise_body_def
  solvated_tail_def Let_def set_atoms_def optimised_filename_def optimise_calculation_def

section \<open>Failing optimisation\<close>

text \<open>
  Claim C3, as the code has it. \<^verbatim>\<open>Molecule.optimise\<close> assigns the energy before it
  extracts the geometry. When the precondition, the engine run or the energy extraction
  fails, the molecule is the one before the call. When the geometry extraction fails, the
  atom sequence is the one before the call and the energy is already the engine's. A
  changed atom sequence always comes with the energy of the same run.
\<close>

theorem optimise_failure_state:
  "(n_atoms m = 0 \<longrightarrow> Molecule_optimise env mth m tr = Raised NoAtomsInSpecies m tr)
   \<and> (n_atoms m \<noteq> 0 \<and> calculation_run env (optimise_calculation env mth m) = Inl e \<longrightarrow>
        Molecule_optimise env mth m tr = Raised e m (tr @ [Call_calculation_run (name m @ ''_opt'')]))
   \<and> (n_atoms m \<noteq> 0 \<and> calculation_run env (optimise_calculation env mth m) = Inr out \<and>
        get_energy out = Inl e \<longrightarrow>
        Molecule_optimise env mth m tr = Raised e m (tr @ [Call_calculation_run (name m @ ''_opt'')]))
   \<and> (n_atoms m \<noteq> 0 \<and> calculation_run env (optimise_calculation env mth m) = Inr out \<and>
        get_energy out = Inr en \<and> get_final_atoms out = Inl e \<longrightarrow>
        Molecule_optimise env mth m tr =
          Raised e (m\<lparr>energy := Some en\<rparr>) (tr @ [Call_calculation_run (name m @ ''_opt'')]))
   \<and> (atoms (molecule_of (Molecule_optimise env mth m tr)) \<noteq> atoms m \<longrightarrow>
        (\<exists>out en as.
            calculation_run env (optimise_calculation env mth m) = Inr out \<and>
            get_energy out = Inr en \<and> get_final_atoms out = Inr as \<and>
            energy (molecule_of (Molecule_optimise env mth m tr)) = Some en \<and>
            atoms (molecule_of (Molecule_optimise env mth m tr)) = Some as))"
proof (cases "n_atoms m = 0")
  case True
  then show ?thesis by (simp add: Molecule_optimise_def requires_atoms_zero)
next
  case False
  then have eq: "Molecule_optimise env mth m tr = optimise_body env mth m tr"
    by (simp add: Molecule_optimise_def requires_atoms_pos)
  show ?thesis
    unfolding eq optimise_body_cases using False
    by (auto split: sum.splits option.splits)
qed


text \<open>
  Two failing runs on water: the engine does not converge (nothing changes), and the
  geometry cannot be extracted (the energy has changed, the atoms have not).
\<close>

theorem optimise_failure_state_water:
  "Molecule_optimise not_converged_env xtb water [] =
     Raised (CollaboratorError ''not converged'') water [Call_calculation_run ''water_opt'']
   \<and> Molecule_optimise no_geometry_env xtb water [] =
     Raised (CollaboratorError ''no geometry'') (water\<lparr>energy := Some (-5.07)\<rparr>)
       [Call_calculation_run ''water_opt'']"
proof -
  have a: "n_atoms water \<noteq> 0 \<and>
        calculation_run not_converged_env (optimise_calculation not_converged_env xtb water)
          = Inl (CollaboratorError ''not converged'')"
    by (simp add: water_fields not_converged_env_def)
  have b: "n_atoms water \<noteq> 0 \<and>
        calculation_run no_geometry_env (optimise_calculation no_geometry_env xtb water)
          = Inr no_geometry_output \<and>
        get_energy no_geometry_output = Inr (-5.07) \<and>
        get_final_atoms no_geometry_output = Inl (CollaboratorError ''no geometry'')"
    by (simp add: water_fields no_geometry_env_def no_geometry_output_def water_output_def)
  show ?thesis
    using optimise_failure_state [of water not_converged_env xtb "[]" "CollaboratorError ''not converged''"]
          optimise_failure_state [of water no_geometry_env xtb "[]" "CollaboratorError ''no geometry''"
                no_geometry_output "-5.07"]
          a b
    by (simp add: water_fields)
qed


text \<open>
  Claim C3 as stated fails: with an engine whose energy can be read and whose geometry
  cannot, the call raises and the energy is no longer the one before the call.
\<close>

theorem optimise_energy_set_before_geometry_fails:
  "raised (Molecule_optimise no_geometry_env xtb water []) = Some (CollaboratorError ''no geometry'')
   \<and> energy water = None
   \<and> energy (molecule_of (Molecule_optimise no_geometry_env xtb water [])) = Some (-5.07)
   \<and> atoms (molecule_of (Molecule_optimise no_geometry_env xtb water [])) = atoms water"
  by (simp add: Molecule_optimise_def run_defs no_geometry_env_def no_geometry_output_def
                example_env_def water_defs)


section \<open>What optimisation changes\<close>

lemma solvated_frame:
  assumes m': "m' = molecule_of (SolvatedMolecule_optimise env mth m tr)"
  shows "m' = m\<lparr>energy := energy m', atoms := atoms m', n_atoms := n_atoms m',
             graph := graph m',
             qm_solvent_atoms := qm_solvent_atoms m', mm_solvent_atoms := mm_solvent_atoms m'\<rparr> \<and>
          node_charges_only (graph m) (graph m')"
proof (cases "n_atoms m = 0")
  case True
  then show ?thesis using m' by (simp add: SolvatedMolecule_optimise_def requires_atoms_zero nco_refl)
next
  case False
  then have eq: "m' = molecule_of (solvated_optimise_body env mth m tr)"
    using m' by (simp add: SolvatedMolecule_optimise_def requires_atoms_pos)
  show ?thesis
  proof (cases rule: solvated_body_molecule_cases [of env mth m tr])
    case a
    with eq have "m' = m" by simp
    then show ?thesis by (simp add: nco_refl)
  next
    case (b en)
    with eq have "m' = m\<lparr>energy := Some en\<rparr>" by simp
    then show ?thesis by (simp add: nco_refl)
  next
    case (c en as)
    with eq have "m' = m\<lparr>energy := Some en, atoms := Some as, n_atoms := length as\<rparr>" by simp
    then show ?thesis by (simp add: nco_refl)
  next
    case (d en as out tr2)
    let ?m2 = "m\<lparr>energy := Some en, atoms := Some as, n_atoms := length as\<rparr>"
    from d eq have e: "m' = molecule_of (solvated_tail env mth out ?m2 tr2)" by simp
    from solvated_tail_frame [OF e]
    have t: "m' = ?m2\<lparr>atoms := atoms m', n_atoms := n_atoms m', graph := graph m',
                 qm_solvent_atoms := qm_solvent_atoms m', mm_solvent_atoms := mm_solvent_atoms m'\<rparr>"
      and n: "node_charges_only (graph ?m2) (graph m')" by blast+
    from arg_cong [OF t, of energy] have en: "energy m' = Some en" by simp
    have "?m2\<lparr>atoms := atoms m', n_atoms := n_atoms m', graph := graph m',
                 qm_solvent_atoms := qm_solvent_atoms m', mm_solvent_atoms := mm_solvent_atoms m'\<rparr>
          = m\<lparr>energy := energy m', atoms := atoms m', n_atoms := n_atoms m',
             graph := graph m',
             qm_solvent_atoms := qm_solvent_atoms m', mm_solvent_atoms := mm_solvent_atoms m'\<rparr>"
      by (simp add: en)
    with t have "m' = m\<lparr>energy := energy m', atoms := atoms m', n_atoms := n_atoms m',
             graph := graph m',
             qm_solvent_atoms := qm_solvent_atoms m', mm_solvent_atoms := mm_solvent_atoms m'\<rparr>"
      by (rule trans)
    moreover have "node_charges_only (graph m) (graph m')" using n by simp
    ultimately show ?thesis by (rule conjI)
  qed
qed


lemma vacuum_frame:
  assumes m': "m' = molecule_of (Molecule_optimise env mth m tr)"
  shows "m' = m\<lparr>energy := energy m', atoms := atoms m', n_atoms := n_atoms m'\<rparr>"
proof (cases "n_atoms m = 0")
  case True
  then show ?thesis using m' by (simp add: Molecule_optimise_def requires_atoms_zero)
next
  case False
  show ?thesis
    using m' unfolding Molecule_optimise_def requires_atoms_pos [OF False] optimise_body_cases
    by (auto split: sum.splits option.splits)
qed

text \<open>
  Claim C9. Whether it returns or raises, \<^verbatim>\<open>Molecule.optimise\<close> leaves a molecule that
  differs from the one before the call at most in energy, atom sequence and atom count;
  \<^verbatim>\<open>SolvatedMolecule.optimise\<close> may also change the graph, and there only the
  \<^verbatim>\<open>'charge'\<close> attribute of nodes, and the two solvent-atom fields. Charge and
  multiplicity are those before the call. The collaborators are taken to return values
  and not to assign to the molecule they are given.
\<close>

theorem optimise_preserves_charge_and_mult:
  "(m' = molecule_of (Molecule_optimise env mth m tr) \<longrightarrow>
      charge m' = charge m \<and> mult m' = mult m \<and>
      m' = m\<lparr>energy := energy m', atoms := atoms m', n_atoms := n_atoms m'\<rparr>)
   \<and> (m' = molecule_of (SolvatedMolecule_optimise env mth m tr) \<longrightarrow>
      charge m' = charge m \<and> mult m' = mult m \<and>
      m' = m\<lparr>energy := energy m', atoms := atoms m', n_atoms := n_atoms m', graph := graph m',
             qm_solvent_atoms := qm_solvent_atoms m', mm_solvent_atoms := mm_solvent_atoms m'\<rparr> \<and>
      node_charges_only (graph m) (graph m'))"
proof (rule conjI; rule impI)
  assume a: "m' = molecule_of (Molecule_optimise env mth m tr)"
  note f = vacuum_frame [OF a]
  from arg_cong [OF f, of charge] have c: "charge m' = charge m" by simp
  from arg_cong [OF f, of mult] have u: "mult m' = mult m" by simp
  from c u f show "charge m' = charge m \<and> mult m' = mult m \<and>
      m' = m\<lparr>energy := energy m', atoms := atoms m', n_atoms := n_atoms m'\<rparr>"
    by (intro conjI)
next
  assume a: "m' = molecule_of (SolvatedMolecule_optimise env mth m tr)"
  from solvated_frame [OF a]
  have f: "m' = m\<lparr>energy := energy m', atoms := atoms m', n_atoms := n_atoms m',
             graph := graph m',
             qm_solvent_atoms := qm_solvent_atoms m', mm_solvent_atoms := mm_solvent_atoms m'\<rparr>"
    and n: "node_charges_only (graph m) (graph m')" by blast+
  from arg_cong [OF f, of charge] have c: "charge m' = charge m" by simp
  from arg_cong [OF f, of mult] have u: "mult m' = mult m" by simp
  from c u f n show "charge m' = charge m \<and> mult m' = mult m \<and>
      m' = m\<lparr>energy := energy m', atoms := atoms m', n_atoms := n_atoms m', graph := graph m',
             qm_solvent_atoms := qm_solvent_atoms m', mm_solvent_atoms := mm_solvent_atoms m'\<rparr> \<and>
      node_charges_only (graph m) (graph m')"
    by (intro conjI)
qed


text \<open>A solvated run on water that returns, and a vacuum run that raises.\<close>

theorem optimise_preserves_charge_and_mult_water:
  "raised (SolvatedMolecule_optimise example_env xtb water []) = None
   \<and> charge (molecule_of (SolvatedMolecule_optimise example_env xtb water [])) = 0
   \<and> mult (molecule_of (SolvatedMolecule_optimise example_env xtb water [])) = 1
   \<and> raised (Molecule_optimise not_converged_env xtb water []) \<noteq> None
   \<and> charge (molecule_of (Molecule_optimise not_converged_env xtb water [])) = 0
   \<and> mult (molecule_of (Molecule_optimise not_converged_env xtb water [])) = 1"
proof -
  have r: "raised (SolvatedMolecule_optimise example_env xtb water []) = None"
    by (simp add: SolvatedMolecule_optimise_def run_defs example_env_def water_defs)
  have q: "raised (Molecule_optimise not_converged_env xtb water []) \<noteq> None"
    by (simp add: Molecule_optimise_def run_defs not_converged_env_def example_env_def water_defs)
  have w: "charge water = 0" "mult water = 1" by (simp_all add: water_defs)
  show ?thesis
    using optimise_preserves_charge_and_mult [of "molecule_of (SolvatedMolecule_optimise example_env xtb water [])"
                 example_env xtb water "[]"]
          optimise_preserves_charge_and_mult [of "molecule_of (Molecule_optimise not_converged_env xtb water [])"
                 not_converged_env xtb water "[]"]
          r q w
    by simp
qed


section \<open>Molecules without atoms\<close>

text \<open>
  Claim C7. The constructor never returns a molecule whose atom count is zero: when the
  initialisation path that was taken (\<^verbatim>\<open>make_graph\<close> for no or an empty SMILES,
  \<^verbatim>\<open>_init_smiles\<close> otherwise) leaves zero atoms, it raises \<^verbatim>\<open>NoAtomsInMolecule\<close>. On a
  molecule with zero atoms, conformer generation and both \<^verbatim>\<open>optimise\<close> methods raise at
  once: the molecule and the record of collaborator calls are as before the call.
\<close>

theorem no_atoms_is_fatal:
  "(Molecule_init env nm smi as sn chg mlt tr = Returned m' tr' \<longrightarrow> n_atoms m' \<noteq> 0)
   \<and> (SolvatedMolecule_init env nm smi as sn chg mlt tr = Returned m' tr' \<longrightarrow> n_atoms m' \<noteq> 0)
   \<and> ((smi = None \<or> smi = Some []) \<and>
        make_graph env (Molecule_init_fields nm smi as sn chg mlt) = Inr m' \<and> n_atoms m' = 0 \<longrightarrow>
        Molecule_init env nm smi as sn chg mlt tr =
          Raised NoAtomsInMolecule m' (tr @ [Call_make_graph]))
   \<and> (s \<noteq> [] \<and>
        Molecule_init_smiles env s (Molecule_init_fields nm (Some s) as sn chg mlt) tr
          = Returned m' tr' \<and> n_atoms m' = 0 \<longrightarrow>
        Molecule_init env nm (Some s) as sn chg mlt tr = Raised NoAtomsInMolecule m' tr')
   \<and> (n_atoms m = 0 \<longrightarrow>
        Molecule_generate_conformers env n_rdkit_confs n_siman_confs m tr
          = Some (Raised NoAtomsInSpecies m tr) \<and>
        Molecule_optimise env mth m tr = Raised NoAtomsInSpecies m tr \<and>
        SolvatedMolecule_optimise env mth m tr = Raised NoAtomsInSpecies m tr)"
proof (intro conjI impI)
  assume "Molecule_init env nm smi as sn chg mlt tr = Returned m' tr'"
  then show "n_atoms m' \<noteq> 0"
    by (auto simp: Molecule_init_def Let_def split: outcome.splits if_splits)
next
  assume "SolvatedMolecule_init env nm smi as sn chg mlt tr = Returned m' tr'"
  then show "n_atoms m' \<noteq> 0"
    by (auto simp: SolvatedMolecule_init_def Molecule_init_def Let_def
             split: outcome.splits if_splits)
next
  assume "(smi = None \<or> smi = Some []) \<and>
        make_graph env (Molecule_init_fields nm smi as sn chg mlt) = Inr m' \<and> n_atoms m' = 0"
  then show "Molecule_init env nm smi as sn chg mlt tr =
          Raised NoAtomsInMolecule m' (tr @ [Call_make_graph])"
    by (auto simp: Molecule_init_def Let_def)
next
  assume "s \<noteq> [] \<and>
        Molecule_init_smiles env s (Molecule_init_fields nm (Some s) as sn chg mlt) tr
          = Returned m' tr' \<and> n_atoms m' = 0"
  then show "Molecule_init env nm (Some s) as sn chg mlt tr = Raised NoAtomsInMolecule m' tr'"
    by (simp add: Molecule_init_def Let_def)
next
  assume "n_atoms m = 0"
  then show "Molecule_generate_conformers env n_rdkit_confs n_siman_confs m tr
          = Some (Raised NoAtomsInSpecies m tr)"
    by (simp add: Molecule_generate_conformers_def requires_atoms_zero)
next
  assume "n_atoms m = 0"
  then show "Molecule_optimise env mth m tr = Raised NoAtomsInSpecies m tr"
    by (simp add: Molecule_optimise_def requires_atoms_zero)
next
  assume "n_atoms m = 0"
  then show "SolvatedMolecule_optimise env mth m tr = Raised NoAtomsInSpecies m tr"
    by (simp add: SolvatedMolecule_optimise_def requires_atoms_zero)
qed


text \<open>
  A molecule given neither atoms nor SMILES: the constructor raises after \<^verbatim>\<open>make_graph\<close>;
  on the object it had built, the three operations raise without calling anything.
\<close>

theorem no_atoms_is_fatal_empty_molecule:
  "Molecule_init example_env ''empty'' None None None 0 1 [] =
     Raised NoAtomsInMolecule no_atoms_molecule [Call_make_graph]
   \<and> Molecule_generate_conformers example_env 300 300 no_atoms_molecule []
       = Some (Raised NoAtomsInSpecies no_atoms_molecule [])
   \<and> Molecule_optimise example_env xtb no_atoms_molecule []
       = Raised NoAtomsInSpecies no_atoms_molecule []
   \<and> SolvatedMolecule_optimise example_env xtb no_atoms_molecule []
       = Raised NoAtomsInSpecies no_atoms_molecule []"
proof -
  have g: "make_graph example_env (Molecule_init_fields ''empty'' None None None 0 1)
             = Inr no_atoms_molecule"
    by (simp add: example_env_def no_atoms_molecule_def)
  have n: "n_atoms no_atoms_molecule = 0"
    by (simp add: no_atoms_molecule_def Molecule_init_fields_def Species_init_def)
  show ?thesis
    using no_atoms_is_fatal [of example_env "''empty''" None None None 0 1 "[]" no_atoms_molecule "[]" "[]"
                 no_atoms_molecule 300 300 xtb] g n
    by simp
qed


section \<open>Solvated optimisation\<close>

lemma solvated_tail_Returned:
  "solvated_tail env mth out m2 tr2 = Returned m' tr' \<Longrightarrow>
   \<exists>charges m3 u sa qa ma.
      get_atomic_charges out = Inr charges \<and>
      set_node_charges 0 charges m2 = (None, m3) \<and>
      do_explicit_solvent_qmmm env m3 (solvent_mol m3) mth 96 = Inr (u, sa, qa, ma) \<and>
      m' = m3\<lparr>atoms := Some sa, n_atoms := length sa,
               qm_solvent_atoms := Some qa, mm_solvent_atoms := Some ma\<rparr> \<and>
      tr' = tr2 @ [Call_do_explicit_solvent_qmmm 96]"
  by (auto simp: solvated_tail_def Let_def set_atoms_def
           split: sum.splits option.splits prod.splits)

lemma solvated_body_Returned:
  "solvated_optimise_body env mth m tr = Returned m' tr' \<Longrightarrow>
   \<exists>out en as charges m3 u sa qa ma.
      calculation_run env (optimise_calculation env mth m) = Inr out \<and>
      get_energy out = Inr en \<and> get_final_atoms out = Inr as \<and>
      print_xyz_file env (name m @ ''_optimised_'' @ method_name mth @ ''.xyz'') (Some as) = None \<and>
      get_atomic_charges out = Inr charges \<and>
      set_node_charges 0 charges (m\<lparr>energy := Some en, atoms := Some as, n_atoms := length as\<rparr>)
        = (None, m3) \<and>
      do_explicit_solvent_qmmm env m3 (solvent_mol m3) mth 96 = Inr (u, sa, qa, ma) \<and>
      m' = m3\<lparr>atoms := Some sa, n_atoms := length sa,
               qm_solvent_atoms := Some qa, mm_solvent_atoms := Some ma\<rparr> \<and>
      tr' = tr @ [Call_calculation_run (name m @ ''_opt''),
                  Call_print_xyz_file (name m @ ''_optimised_'' @ method_name mth @ ''.xyz'')
                                      (Some as),
                  Call_do_explicit_solvent_qmmm 96]"
  unfolding solvated_optimise_body_cases
  by (auto split: sum.splits option.splits dest!: solvated_tail_Returned)

lemma solvated_body_Raised_fields:
  "solvated_optimise_body env mth m tr = Raised e m' tr' \<Longrightarrow>
   qm_solvent_atoms m' = qm_solvent_atoms m \<and> mm_solvent_atoms m' = mm_solvent_atoms m"
  unfolding solvated_optimise_body_cases
  by (auto split: sum.splits option.splits dest!: solvated_tail_raised_fields)

lemma solvated_body_qmmm_fails:
  "calculation_run env (optimise_calculation env mth m) = Inr out \<Longrightarrow>
   get_energy out = Inr en \<Longrightarrow> get_final_atoms out = Inr as \<Longrightarrow>
   print_xyz_file env (name m @ ''_optimised_'' @ method_name mth @ ''.xyz'') (Some as) = None \<Longrightarrow>
   get_atomic_charges out = Inr charges \<Longrightarrow>
   set_node_charges 0 charges (m\<lparr>energy := Some en, atoms := Some as, n_atoms := length as\<rparr>)
     = (None, m3) \<Longrightarrow>
   do_explicit_solvent_qmmm env m3 (solvent_mol m3) mth 96 = Inl e \<Longrightarrow>
   solvated_optimise_body env mth m tr =
     Raised e m3 (tr @ [Call_calculation_run (name m @ ''_opt''),
                  Call_print_xyz_file (name m @ ''_optimised_'' @ method_name mth @ ''.xyz'')
                                      (Some as),
                  Call_do_explicit_solvent_qmmm 96])"
  by (simp add: solvated_optimise_body_cases solvated_tail_cases)


text \<open>
  Claim C8. Whenever \<^verbatim>\<open>SolvatedMolecule.optimise\<close> raises, the two solvent-atom fields
  are those before the call. When it returns, the engine run, both extractions, the
  writer, the charge extraction with the charge loop, and the explicit-solvent search have
  all succeeded, in this order, and the three assignments come from the search's result.
  When the search fails after all earlier stages succeeded, the call raises with the
  vacuum geometry still in place and the solvent-atom fields as before the call.
\<close>

theorem solvent_fields_set_last:
  "(SolvatedMolecule_optimise env mth m tr = Raised e m' tr' \<longrightarrow>
      qm_solvent_atoms m' = qm_solvent_atoms m \<and> mm_solvent_atoms m' = mm_solvent_atoms m)
   \<and> (SolvatedMolecule_optimise env mth m tr = Returned m' tr' \<longrightarrow>
      n_atoms m \<noteq> 0 \<and>
      (\<exists>out en as charges m3 u sa qa ma.
         calculation_run env (optimise_calculation env mth m) = Inr out \<and>
         get_energy out = Inr en \<and> get_final_atoms out = Inr as \<and>
         print_xyz_file env (name m @ ''_optimised_'' @ method_name mth @ ''.xyz'') (Some as)
           = None \<and>
         get_atomic_charges out = Inr charges \<and>
         set_node_charges 0 charges
           (m\<lparr>energy := Some en, atoms := Some as, n_atoms := length as\<rparr>) = (None, m3) \<and>
         do_explicit_solvent_qmmm env m3 (solvent_mol m3) mth 96 = Inr (u, sa, qa, ma) \<and>
         m' = m3\<lparr>atoms := Some sa, n_atoms := length sa,
                  qm_solvent_atoms := Some qa, mm_solvent_atoms := Some ma\<rparr> \<and>
         tr' = tr @ [Call_calculation_run (name m @ ''_opt''),
                     Call_print_xyz_file
                       (name m @ ''_optimised_'' @ method_name mth @ ''.xyz'') (Some as),
                     Call_do_explicit_solvent_qmmm 96]))
   \<and> (n_atoms m \<noteq> 0 \<and>
       calculation_run env (optimise_calculation env mth m) = Inr out \<and>
       get_energy out = Inr en \<and> get_final_atoms out = Inr as \<and>
       print_xyz_file env (name m @ ''_optimised_'' @ method_name mth @ ''.xyz'') (Some as)
         = None \<and>
       get_atomic_charges out = Inr charges \<and>
       set_node_charges 0 charges
         (m\<lparr>energy := Some en, atoms := Some as, n_atoms := length as\<rparr>) = (None, m3) \<and>
       do_explicit_solvent_qmmm env m3 (solvent_mol m3) mth 96 = Inl e \<longrightarrow>
       SolvatedMolecule_optimise env mth m tr =
         Raised e m3 (tr @ [Call_calculation_run (name m @ ''_opt''),
                            Call_print_xyz_file
                              (name m @ ''_optimised_'' @ method_name mth @ ''.xyz'') (Some as),
                            Call_do_explicit_solvent_qmmm 96])
       \<and> atoms m3 = Some as
       \<and> qm_solvent_atoms m3 = qm_solvent_atoms m \<and> mm_solvent_atoms m3 = mm_solvent_atoms m)"
proof (cases "n_atoms m = 0")
  case True
  then show ?thesis by (simp add: SolvatedMolecule_optimise_def requires_atoms_zero)
next
  case False
  then have eq: "SolvatedMolecule_optimise env mth m tr = solvated_optimise_body env mth m tr"
    by (simp add: SolvatedMolecule_optimise_def requires_atoms_pos)
  have 1: "solvated_optimise_body env mth m tr = Raised e m' tr' \<longrightarrow>
      qm_solvent_atoms m' = qm_solvent_atoms m \<and> mm_solvent_atoms m' = mm_solvent_atoms m"
    using solvated_body_Raised_fields by blast
  have 2: "solvated_optimise_body env mth m tr = Returned m' tr' \<longrightarrow>
      n_atoms m \<noteq> 0 \<and>
      (\<exists>out en as charges m3 u sa qa ma.
         calculation_run env (optimise_calculation env mth m) = Inr out \<and>
         get_energy out = Inr en \<and> get_final_atoms out = Inr as \<and>
         print_xyz_file env (name m @ ''_optimised_'' @ method_name mth @ ''.xyz'') (Some as)
           = None \<and>
         get_atomic_charges out = Inr charges \<and>
         set_node_charges 0 charges
           (m\<lparr>energy := Some en, atoms := Some as, n_atoms := length as\<rparr>) = (None, m3) \<and>
         do_explicit_solvent_qmmm env m3 (solvent_mol m3) mth 96 = Inr (u, sa, qa, ma) \<and>
         m' = m3\<lparr>atoms := Some sa, n_atoms := length sa,
                  qm_solvent_atoms := Some qa, mm_solvent_atoms := Some ma\<rparr> \<and>
         tr' = tr @ [Call_calculation_run (name m @ ''_opt''),
                     Call_print_xyz_file
                       (name m @ ''_optimised_'' @ method_name mth @ ''.xyz'') (Some as),
                     Call_do_explicit_solvent_qmmm 96])"
    using solvated_body_Returned [of env mth m tr m' tr'] False by blast
  have 3: "n_atoms m \<noteq> 0 \<and>
       calculation_run env (optimise_calculation env mth m) = Inr out \<and>
       get_energy out = Inr en \<and> get_final_atoms out = Inr as \<and>
       print_xyz_file env (name m @ ''_optimised_'' @ method_name mth @ ''.xyz'') (Some as)
         = None \<and>
       get_atomic_charges out = Inr charges \<and>
       set_node_charges 0 charges
         (m\<lparr>energy := Some en, atoms := Some as, n_atoms := length as\<rparr>) = (None, m3) \<and>
       do_explicit_solvent_qmmm env m3 (solvent_mol m3) mth 96 = Inl e \<longrightarrow>
       solvated_optimise_body env mth m tr =
         Raised e m3 (tr @ [Call_calculation_run (name m @ ''_opt''),
                            Call_print_xyz_file
                              (name m @ ''_optimised_'' @ method_name mth @ ''.xyz'') (Some as),
                            Call_do_explicit_solvent_qmmm 96])
       \<and> atoms m3 = Some as
       \<and> qm_solvent_atoms m3 = qm_solvent_atoms m \<and> mm_solvent_atoms m3 = mm_solvent_atoms m"
  proof
    assume h: "n_atoms m \<noteq> 0 \<and>
       calculation_run env (optimise_calculation env mth m) = Inr out \<and>
       get_energy out = Inr en \<and> get_final_atoms out = Inr as \<and>
       print_xyz_file env (name m @ ''_optimised_'' @ method_name mth @ ''.xyz'') (Some as)
         = None \<and>
       get_atomic_charges out = Inr charges \<and>
       set_node_charges 0 charges
         (m\<lparr>energy := Some en, atoms := Some as, n_atoms := length as\<rparr>) = (None, m3) \<and>
       do_explicit_solvent_qmmm env m3 (solvent_mol m3) mth 96 = Inl e"
    then have s: "set_node_charges 0 charges
         (m\<lparr>energy := Some en, atoms := Some as, n_atoms := length as\<rparr>) = (None, m3)"
      by blast
    from set_node_charges_frame [OF s]
    have f: "m3 = m\<lparr>energy := Some en, atoms := Some as, n_atoms := length as,
                    graph := graph m3\<rparr>" by simp
    from arg_cong [OF f, of atoms] have a: "atoms m3 = Some as" by simp
    from arg_cong [OF f, of qm_solvent_atoms] have q: "qm_solvent_atoms m3 = qm_solvent_atoms m"
      by simp
    from arg_cong [OF f, of mm_solvent_atoms] have mm: "mm_solvent_atoms m3 = mm_solvent_atoms m"
      by simp
    have "solvated_optimise_body env mth m tr =
         Raised e m3 (tr @ [Call_calculation_run (name m @ ''_opt''),
                            Call_print_xyz_file
                              (name m @ ''_optimised_'' @ method_name mth @ ''.xyz'') (Some as),
                            Call_do_explicit_solvent_qmmm 96])"
      using h by (intro solvated_body_qmmm_fails) blast+
    with a q mm show "solvated_optimise_body env mth m tr =
         Raised e m3 (tr @ [Call_calculation_run (name m @ ''_opt''),
                            Call_print_xyz_file
                              (name m @ ''_optimised_'' @ method_name mth @ ''.xyz'') (Some as),
                            Call_do_explicit_solvent_qmmm 96])
       \<and> atoms m3 = Some as
       \<and> qm_solvent_atoms m3 = qm_solvent_atoms m \<and> mm_solvent_atoms m3 = mm_solvent_atoms m"
      by blast
  qed
  show ?thesis unfolding eq using 1 2 3 by (intro conjI)
qed


lemma outcome_Raised: "raised oc = Some e \<Longrightarrow> oc = Raised e (molecule_of oc) (trace_of oc)"
  by (cases oc) simp_all


text \<open>On water, with a search that fails: three collaborator calls, no solvent field set.\<close>

theorem solvent_fields_unset_when_search_fails:
  "raised (SolvatedMolecule_optimise qmmm_fails_env xtb water [])
     = Some (CollaboratorError ''solvent search'')
   \<and> trace_of (SolvatedMolecule_optimise qmmm_fails_env xtb water [])
     = [Call_calculation_run ''water_opt'',
        Call_print_xyz_file ''water_optimised_xtb.xyz'' (Some water_refined),
        Call_do_explicit_solvent_qmmm 96]
   \<and> qm_solvent_atoms (molecule_of (SolvatedMolecule_optimise qmmm_fails_env xtb water [])) = None
   \<and> mm_solvent_atoms (molecule_of (SolvatedMolecule_optimise qmmm_fails_env xtb water [])) = None"
proof -
  have r: "raised (SolvatedMolecule_optimise qmmm_fails_env xtb water [])
             = Some (CollaboratorError ''solvent search'')"
    by (simp add: SolvatedMolecule_optimise_def run_defs qmmm_fails_env_def example_env_def
                  water_defs)
  have t: "trace_of (SolvatedMolecule_optimise qmmm_fails_env xtb water [])
     = [Call_calculation_run ''water_opt'',
        Call_print_xyz_file ''water_optimised_xtb.xyz'' (Some water_refined),
        Call_do_explicit_solvent_qmmm 96]"
    by (simp add: SolvatedMolecule_optimise_def run_defs qmmm_fails_env_def example_env_def
                  water_defs)
  have w: "qm_solvent_atoms water = None" "mm_solvent_atoms water = None"
    by (simp_all add: water_defs)
  let ?oc = "SolvatedMolecule_optimise qmmm_fails_env xtb water []"
  have imp: "?oc = Raised (CollaboratorError ''solvent search'') (molecule_of ?oc) (trace_of ?oc)
        \<longrightarrow> qm_solvent_atoms (molecule_of ?oc) = qm_solvent_atoms water \<and>
            mm_solvent_atoms (molecule_of ?oc) = mm_solvent_atoms water"
    using solvent_fields_set_last [of qmmm_fails_env xtb water "[]" "CollaboratorError ''solvent search''"
                 "molecule_of ?oc" "trace_of ?oc"]
    by (rule conjunct1)
  have "qm_solvent_atoms (molecule_of ?oc) = qm_solvent_atoms water \<and>
            mm_solvent_atoms (molecule_of ?oc) = mm_solvent_atoms water"
    using imp outcome_Raised [OF r] by (rule mp)
  then show ?thesis using r t w by simp
qed


section \<open>Charge extraction\<close>

text \<open>
  Claim C2, as the code has it. The loop writes the charges it is given onto the nodes
  \<open>0, 1, ...\<close> in order and compares no lengths. If the first \<open>k\<close> indices are nodes of
  the graph and either \<open>k\<close> is the number of charges, or index \<open>k\<close> is not a node, then
  exactly the first \<open>k\<close> charges are written: in the first case the loop ends normally,
  however many atoms the molecule has, in the second it raises \<^verbatim>\<open>KeyError\<close> at \<open>k\<close>.
  Nodes from \<open>k\<close> on are left as they were.
\<close>

theorem charges_written_by_position:
  "(graph m = Some g \<and> k \<le> length cs \<and> (\<forall>i<k. nodes g i \<noteq> None) \<and>
      (k < length cs \<longrightarrow> nodes g k = None) \<longrightarrow>
      set_node_charges 0 cs m =
        ((if k < length cs then Some (KeyError k) else None),
         m\<lparr>graph := Some (with_charges g 0 cs k)\<rparr>))
   \<and> nodes (with_charges g 0 cs k) i =
       (if i < k then map_option (\<lambda>node. node(''charge'' \<mapsto> Attr_float (cs ! i))) (nodes g i)
        else nodes g i)"
proof (rule conjI)
  show "graph m = Some g \<and> k \<le> length cs \<and> (\<forall>i<k. nodes g i \<noteq> None) \<and>
      (k < length cs \<longrightarrow> nodes g k = None) \<longrightarrow>
      set_node_charges 0 cs m =
        ((if k < length cs then Some (KeyError k) else None),
         m\<lparr>graph := Some (with_charges g 0 cs k)\<rparr>)"
    using set_node_charges_closed_form [of m g k cs 0] by simp
next
  show "nodes (with_charges g 0 cs k) i =
       (if i < k then map_option (\<lambda>node. node(''charge'' \<mapsto> Attr_float (cs ! i))) (nodes g i)
        else nodes g i)"
    by (simp add: with_charges_def)
qed


text \<open>
  Water has three nodes. Two charges are written without failure and node 2 keeps its
  attributes; of four charges three are written before the \<^verbatim>\<open>KeyError\<close> at index 3.
\<close>

theorem charges_written_by_position_water:
  "set_node_charges 0 [-0.56, 0.28] water =
     (None, water\<lparr>graph := Some (with_charges water_graph 0 [-0.56, 0.28] 2)\<rparr>)
   \<and> nodes (with_charges water_graph 0 [-0.56, 0.28] 2) 2
       = Some [''atom_label'' \<mapsto> Attr_str ''H'']
   \<and> set_node_charges 0 [-0.56, 0.28, 0.28, 0.1] water =
     (Some (KeyError 3), water\<lparr>graph := Some (with_charges water_graph 0 [-0.56, 0.28, 0.28, 0.1] 3)\<rparr>)"
proof -
  have g: "graph water = Some water_graph" by (simp add: water_def)
  have a: "\<forall>i<2. nodes water_graph i \<noteq> None"
    by (simp add: water_graph_def less_Suc_eq numeral_2_eq_2)
  have b: "\<forall>i<3. nodes water_graph i \<noteq> None"
    by (simp add: water_graph_def less_Suc_eq numeral_3_eq_3)
  have c: "nodes water_graph 3 = None" "nodes water_graph 2 = Some [''atom_label'' \<mapsto> Attr_str ''H'']"
    by (simp_all add: water_graph_def)
  show ?thesis
    using charges_written_by_position [of water water_graph 2 "[-0.56, 0.28]" 2]
          charges_written_by_position [of water water_graph 3 "[-0.56, 0.28, 0.28, 0.1]" 0]
          g a b c
    by simp
qed



text \<open>
  Claim C2 as stated fails: the engine returns two charges for the three atoms of water,
  the whole solvated optimisation returns, and node 2 carries no charge.
\<close>

theorem short_charge_list_is_accepted:
  "calculation_run short_charges_env (optimise_calculation short_charges_env xtb water)
     = Inr short_charges_output
   \<and> get_atomic_charges short_charges_output = Inr [-0.56, 0.28]
   \<and> raised (SolvatedMolecule_optimise short_charges_env xtb water []) = None
   \<and> n_atoms (molecule_of (SolvatedMolecule_optimise short_charges_env xtb water [])) = 3
   \<and> node_charge (molecule_of (SolvatedMolecule_optimise short_charges_env xtb water [])) 1
       = Some (Attr_float 0.28)
   \<and> node_charge (molecule_of (SolvatedMolecule_optimise short_charges_env xtb water [])) 2
       = None"
  by (simp add: SolvatedMolecule_optimise_def run_defs short_charges_env_def
                short_charges_output_def example_env_def water_defs node_charge_def)



section \<open>Sampling by simulated annealing\<close>

lemma str_of_nat_small: "n < 10 \<Longrightarrow> str_of_nat n = [digit n]"
  by (simp add: str_of_nat.simps)

lemma upt_0_5: "[0..<5] = [0, 1, 2, 3, 4::nat]"
  by code_simp

lemmas gen_defs = Molecule_generate_conformers_def requires_atoms_def generate_conformers_body_def
  sample_conf_atoms_list_def simanl_conf_atoms_list_def Let_def conf_is_unique_rmsd_def
  Conformer_def

lemma run_workers_lookup:
  "run_workers f sched sl j = (if j \<in> set sched then Some (f j) else sl j)"
  by (induction sched arbitrary: sl) auto

lemma get_all_ok:
  "(\<forall>j \<in> set js. \<exists>as. sl j = Some (Inr as)) \<Longrightarrow>
   get_all sl js = Some (Inr (map (\<lambda>j. projr (the (sl j))) js))"
  by (induction js) auto

lemma pool_collects_in_submission_order:
  assumes "set js \<subseteq> set sched" and "\<forall>j \<in> set js. \<exists>as. f j = Inr as"
  shows "get_all (run_workers f sched Map.empty) js = Some (Inr (map (\<lambda>j. projr (f j)) js))"
proof -
  have "\<forall>j \<in> set js. \<exists>as. run_workers f sched Map.empty j = Some (Inr as)"
    using assms by (auto simp: run_workers_lookup)
  then have "get_all (run_workers f sched Map.empty) js =
               Some (Inr (map (\<lambda>j. projr (the (run_workers f sched Map.empty j))) js))"
    by (rule get_all_ok)
  moreover have "map (\<lambda>j. projr (the (run_workers f sched Map.empty j))) js
                 = map (\<lambda>j. projr (f j)) js"
    using assms(1) by (auto simp: run_workers_lookup)
  ultimately show ?thesis by simp
qed

text \<open>
  Claim C5. The annealing branch is the one taken when the molecule has no SMILES or
  embedding is not viable. With a core count of at least one, \<open>N \<ge> 0\<close> requested runs,
  every submitted job completing (in whatever order) and no worker failing, the candidate
  list is returned, has exactly \<open>N\<close> entries, and its entry \<open>i\<close> is the result of the run
  called with index \<open>i\<close>.
\<close>

theorem annealing_candidates_in_submission_order:
  "((smiles m = None \<or> \<not> rdkit_conf_gen_is_fine m) \<longrightarrow>
      sample_conf_atoms_list env n_rdkit_confs N m tr = simanl_conf_atoms_list env N m tr)
   \<and> (1 \<le> n_cores env \<and> 0 \<le> N \<and> {0 ..< nat N} \<subseteq> set (completion_order env) \<and>
   (\<forall>i < nat N. \<exists>as. get_simanl_atoms env m i = Inr as) \<longrightarrow>
     simanl_conf_atoms_list env N m tr =
       Some (Inr (map (\<lambda>i. projr (get_simanl_atoms env m i)) [0 ..< nat N]),
             tr @ map Call_apply_async [0 ..< nat N])
     \<and> int (length (map (\<lambda>i. projr (get_simanl_atoms env m i)) [0 ..< nat N])) = N
     \<and> (\<forall>i < nat N. get_simanl_atoms env m i =
           Inr (map (\<lambda>i. projr (get_simanl_atoms env m i)) [0 ..< nat N] ! i)))"
proof (rule conjI; rule impI)
  assume "smiles m = None \<or> \<not> rdkit_conf_gen_is_fine m"
  then show "sample_conf_atoms_list env n_rdkit_confs N m tr = simanl_conf_atoms_list env N m tr"
    by (auto simp: sample_conf_atoms_list_def)
next
  assume h: "1 \<le> n_cores env \<and> 0 \<le> N \<and> {0 ..< nat N} \<subseteq> set (completion_order env) \<and>
   (\<forall>i < nat N. \<exists>as. get_simanl_atoms env m i = Inr as)"
  have sub: "set [0 ..< nat N] \<subseteq> set (completion_order env)" using h by simp
  have ok: "\<forall>j \<in> set [0 ..< nat N]. \<exists>as. get_simanl_atoms env m j = Inr as" using h by simp
  have "get_all (run_workers (get_simanl_atoms env m) (completion_order env) Map.empty)
          [0 ..< nat N]
        = Some (Inr (map (\<lambda>j. projr (get_simanl_atoms env m j)) [0 ..< nat N]))"
    by (rule pool_collects_in_submission_order [OF sub ok])
  then have 1: "simanl_conf_atoms_list env N m tr =
       Some (Inr (map (\<lambda>i. projr (get_simanl_atoms env m i)) [0 ..< nat N]),
             tr @ map Call_apply_async [0 ..< nat N])"
    using h by (simp add: simanl_conf_atoms_list_def Let_def)
  have 2: "int (length (map (\<lambda>i. projr (get_simanl_atoms env m i)) [0 ..< nat N])) = N"
    using h by simp
  have 3: "\<forall>i < nat N. get_simanl_atoms env m i =
           Inr (map (\<lambda>i. projr (get_simanl_atoms env m i)) [0 ..< nat N] ! i)"
  proof (intro allI impI)
    fix i assume i: "i < nat N"
    then obtain as where "get_simanl_atoms env m i = Inr as" using h by blast
    then show "get_simanl_atoms env m i =
           Inr (map (\<lambda>i. projr (get_simanl_atoms env m i)) [0 ..< nat N] ! i)"
      using i by simp
  qed
  from 1 2 3 show "simanl_conf_atoms_list env N m tr =
       Some (Inr (map (\<lambda>i. projr (get_simanl_atoms env m i)) [0 ..< nat N]),
             tr @ map Call_apply_async [0 ..< nat N])
     \<and> int (length (map (\<lambda>i. projr (get_simanl_atoms env m i)) [0 ..< nat N])) = N
     \<and> (\<forall>i < nat N. get_simanl_atoms env m i =
           Inr (map (\<lambda>i. projr (get_simanl_atoms env m i)) [0 ..< nat N] ! i))"
    by (intro conjI)
qed


text \<open>Five runs on water whose workers finish in the order 4, 2, 0, 3, 1.\<close>

theorem annealing_candidates_water:
  "completion_order anneal_env = [4, 2, 0, 3, 1]
   \<and> simanl_conf_atoms_list anneal_env 5 water [] =
       Some (Inr [anneal_atoms 0, anneal_atoms 1, anneal_atoms 2, anneal_atoms 3, anneal_atoms 4],
             [Call_apply_async 0, Call_apply_async 1, Call_apply_async 2,
              Call_apply_async 3, Call_apply_async 4])"
proof -
  have a: "1 \<le> n_cores anneal_env \<and> (0::int) \<le> 5 \<and>
           {0 ..< nat 5} \<subseteq> set (completion_order anneal_env) \<and>
           (\<forall>i < nat 5. \<exists>as. get_simanl_atoms anneal_env water i = Inr as)"
    by (auto simp: anneal_env_def example_env_def)
  have b: "\<And>i. projr (get_simanl_atoms anneal_env water i) = anneal_atoms i"
    by (simp add: anneal_env_def)
  have c: "completion_order anneal_env = [4, 2, 0, 3, 1]" by (simp add: anneal_env_def)
  have "simanl_conf_atoms_list anneal_env 5 water [] =
       Some (Inr (map (\<lambda>i. projr (get_simanl_atoms anneal_env water i)) [0 ..< nat 5]),
             [] @ map Call_apply_async [0 ..< nat 5])"
    using annealing_candidates_in_submission_order
            [of water anneal_env 300 5 "[]", THEN conjunct2, THEN mp, OF a]
    by (rule conjunct1)
  then show ?thesis by (simp add: b c upt_0_5)
qed


section \<open>The uniqueness filter\<close>

lemma conf_atoms_Conformer: "conf_atoms (Conformer nm chg mlt as) = as"
  by (simp add: Conformer_def)

lemma conf_is_unique_rmsd_iff:
  "conf_is_unique_rmsd env conf cs \<longleftrightarrow>
     (\<forall>other \<in> set cs. rmsd_tol env \<le> calc_rmsd env (conf_atoms conf) (conf_atoms other))"
proof (cases cs)
  case Nil
  then show ?thesis by (simp add: conf_is_unique_rmsd_def)
next
  case (Cons c cs')
  let ?d = "\<lambda>other. calc_rmsd env (conf_atoms conf) (conf_atoms other)"
  have "fold min (map ?d cs') (?d c) = Min (set (?d c # map ?d cs'))"
    by (simp only: Min.set_eq_fold)
  then have "conf_is_unique_rmsd env conf cs \<longleftrightarrow> \<not> Min (set (?d c # map ?d cs')) < rmsd_tol env"
    using Cons by (simp add: conf_is_unique_rmsd_def)
  also have "\<dots> \<longleftrightarrow> (\<forall>a \<in> set (?d c # map ?d cs'). \<not> a < rmsd_tol env)"
    by (subst Min_less_iff) auto
  also have "\<dots> \<longleftrightarrow> (\<forall>other \<in> set cs. rmsd_tol env \<le> ?d other)"
    using Cons by (auto simp: not_less)
  finally show ?thesis .
qed

lemma conformers_loop_ignores_conformers:
  "conformers_loop env (m\<lparr>conformers := x\<rparr>) i cands confs = conformers_loop env m i cands confs"
  by (induction cands arbitrary: i confs) (simp_all add: Let_def)

lemma conformers_loop_snoc:
  "conformers_loop env m i (xs @ [a]) confs =
     (if conf_is_unique_rmsd env
           (Conformer (name m @ ''_conf'' @ str_of_nat (i + length xs)) (charge m) (mult m) a)
           (conformers_loop env m i xs confs)
      then conformers_loop env m i xs confs @
             [(Conformer (name m @ ''_conf'' @ str_of_nat (i + length xs)) (charge m) (mult m) a)
                \<lparr>conf_solvent := solvent m\<rparr>]
      else conformers_loop env m i xs confs)"
  by (induction xs arbitrary: i confs) (simp_all add: Let_def)

lemma conformers_loop_far_apart:
  "sorted_wrt (far_apart env) confs \<Longrightarrow>
   sorted_wrt (far_apart env) (conformers_loop env m i cands confs)"
proof (induction cands arbitrary: i confs)
  case Nil
  then show ?case by simp
next
  case (Cons as rest)
  let ?conf = "Conformer (name m @ ''_conf'' @ str_of_nat i) (charge m) (mult m) as"
  show ?case
  proof (cases "conf_is_unique_rmsd env ?conf confs")
    case True
    then have "\<forall>other \<in> set confs. far_apart env other (?conf\<lparr>conf_solvent := solvent m\<rparr>)"
      by (simp add: conf_is_unique_rmsd_iff far_apart_def conf_atoms_Conformer)
    then have "sorted_wrt (far_apart env) (confs @ [?conf\<lparr>conf_solvent := solvent m\<rparr>])"
      using Cons.prems by (simp add: sorted_wrt_append)
    then show ?thesis using True Cons.IH by (simp add: Let_def)
  next
    case False
    then show ?thesis using Cons by (simp add: Let_def)
  qed
qed

lemma conformers_loop_refines_greedy:
  "map conf_atoms (conformers_loop env m i cands confs) =
     greedy_unique env (map conf_atoms confs) cands"
proof (induction cands arbitrary: i confs)
  case Nil
  then show ?case by simp
next
  case (Cons as rest)
  let ?conf = "Conformer (name m @ ''_conf'' @ str_of_nat i) (charge m) (mult m) as"
  have u: "conf_is_unique_rmsd env ?conf confs \<longleftrightarrow>
           \<not> list_ex (\<lambda>g. calc_rmsd env as g < rmsd_tol env) (map conf_atoms confs)"
    by (auto simp: conf_is_unique_rmsd_iff conf_atoms_Conformer list_ex_iff not_less)
  show ?case
  proof (cases "conf_is_unique_rmsd env ?conf confs")
    case True
    then show ?thesis
      using u Cons.IH [of "i + 1" "confs @ [?conf\<lparr>conf_solvent := solvent m\<rparr>]"]
      by (simp add: Let_def conf_atoms_Conformer)
  next
    case False
    then show ?thesis using u Cons.IH [of "i + 1" confs] by (simp add: Let_def)
  qed
qed


lemma accepted_at_snoc_old:
  "k < length xs \<Longrightarrow> accepted_at env m (xs @ [a]) k = accepted_at env m xs k"
  by (simp add: accepted_at_def nth_append)

lemma accepted_at_snoc_new:
  "accepted_at env m (xs @ [a]) (length xs) =
     conf_is_unique_rmsd env
       (Conformer (name m @ ''_conf'' @ str_of_nat (length xs)) (charge m) (mult m) a)
       (conformers_loop env m 0 xs [])"
  by (simp add: accepted_at_def)

lemma conformers_loop_as_filter:
  "conformers_loop env m 0 cands [] =
     map (\<lambda>k. \<lparr>conf_name = name m @ ''_conf'' @ str_of_nat k, conf_charge = charge m,
               conf_mult = mult m, conf_atoms = cands ! k, conf_solvent = solvent m\<rparr>)
         (filter (accepted_at env m cands) [0 ..< length cands])"
proof (induction cands rule: rev_induct)
  case Nil
  then show ?case by simp
next
  case (snoc a xs)
  let ?mk = "\<lambda>cs k. \<lparr>conf_name = name m @ ''_conf'' @ str_of_nat k, conf_charge = charge m,
               conf_mult = mult m, conf_atoms = cs ! k, conf_solvent = solvent m\<rparr>"
  have old: "map (?mk (xs @ [a])) (filter (accepted_at env m (xs @ [a])) [0 ..< length xs])
             = map (?mk xs) (filter (accepted_at env m xs) [0 ..< length xs])"
  proof -
    have "filter (accepted_at env m (xs @ [a])) [0 ..< length xs]
          = filter (accepted_at env m xs) [0 ..< length xs]"
      by (rule filter_cong) (simp_all add: accepted_at_snoc_old)
    moreover have "map (?mk (xs @ [a])) (filter (accepted_at env m xs) [0 ..< length xs])
                   = map (?mk xs) (filter (accepted_at env m xs) [0 ..< length xs])"
      by (rule map_cong) (simp_all add: nth_append)
    ultimately show ?thesis by simp
  qed
  have new: "?mk (xs @ [a]) (length xs) =
        (Conformer (name m @ ''_conf'' @ str_of_nat (length xs)) (charge m) (mult m) a)
          \<lparr>conf_solvent := solvent m\<rparr>"
    by (simp add: Conformer_def)
  have split: "filter (accepted_at env m (xs @ [a])) [0 ..< length (xs @ [a])]
        = filter (accepted_at env m (xs @ [a])) [0 ..< length xs]
          @ (if accepted_at env m (xs @ [a]) (length xs) then [length xs] else [])"
    by simp
  show ?case
  proof (cases "accepted_at env m (xs @ [a]) (length xs)")
    case True
    then have "conformers_loop env m 0 (xs @ [a]) [] =
               conformers_loop env m 0 xs [] @ [?mk (xs @ [a]) (length xs)]"
      unfolding new using accepted_at_snoc_new [of env m xs a]
      by (simp add: conformers_loop_snoc)
    then show ?thesis
      unfolding split using True old snoc.IH by simp
  next
    case False
    then have "conformers_loop env m 0 (xs @ [a]) [] = conformers_loop env m 0 xs []"
      using accepted_at_snoc_new [of env m xs a] by (simp add: conformers_loop_snoc)
    then show ?thesis
      unfolding split using False old snoc.IH by simp
  qed
qed

lemma generate_returns_loop:
  assumes "n_atoms m \<noteq> 0"
    and "sample_conf_atoms_list env nr ns (m\<lparr>conformers := Some []\<rparr>) tr = Some (Inr cands, tr1)"
  shows "Molecule_generate_conformers env nr ns m tr =
           Some (Returned (m\<lparr>conformers := Some (conformers_loop env m 0 cands [])\<rparr>) tr1)"
  using assms
  by (simp add: Molecule_generate_conformers_def requires_atoms_pos generate_conformers_body_def
                Let_def conformers_loop_ignores_conformers)

lemma generate_Returned:
  assumes "Molecule_generate_conformers env nr ns m tr = Some (Returned m' tr')"
  shows "\<exists>cands. conformers m' = Some (conformers_loop env m 0 cands [])"
proof (cases "n_atoms m = 0")
  case True
  then show ?thesis using assms
    by (simp add: Molecule_generate_conformers_def requires_atoms_zero)
next
  case False
  then show ?thesis using assms
    by (auto simp: Molecule_generate_conformers_def requires_atoms_pos generate_conformers_body_def
                Let_def conformers_loop_ignores_conformers
             split: option.splits prod.splits sum.splits)
qed


text \<open>
  Claim C6. When the candidates have been sampled, conformer generation returns, and the
  geometries of the accepted conformers are what the greedy filter of the specification
  makes of the candidates, in candidate order. Whenever generation returns, every later
  accepted conformer is at least the threshold away from every earlier one, the distance
  taken with the later one first, as the filter computes it; for a symmetric distance
  this holds for any two different positions. A candidate compared with no accepted
  conformer is unique.
\<close>

theorem accepted_conformers_pairwise_far:
  "(n_atoms m \<noteq> 0 \<and>
    sample_conf_atoms_list env n_rdkit_confs n_siman_confs (m\<lparr>conformers := Some []\<rparr>) tr
      = Some (Inr cands, tr1) \<longrightarrow>
      (\<exists>cs. Molecule_generate_conformers env n_rdkit_confs n_siman_confs m tr
               = Some (Returned (m\<lparr>conformers := Some cs\<rparr>) tr1) \<and>
            map conf_atoms cs = greedy_unique env [] cands))
   \<and> (Molecule_generate_conformers env n_rdkit_confs n_siman_confs m tr = Some (Returned m' tr')
        \<longrightarrow>
      (\<exists>cs. conformers m' = Some cs \<and>
         (\<forall>i j. i < j \<and> j < length cs \<longrightarrow>
            rmsd_tol env \<le> calc_rmsd env (conf_atoms (cs ! j)) (conf_atoms (cs ! i))) \<and>
         ((\<forall>a b. calc_rmsd env a b = calc_rmsd env b a) \<longrightarrow>
            (\<forall>i j. i < length cs \<and> j < length cs \<and> i \<noteq> j \<longrightarrow>
               rmsd_tol env \<le> calc_rmsd env (conf_atoms (cs ! i)) (conf_atoms (cs ! j))))))
   \<and> conf_is_unique_rmsd env conf []"
proof (intro conjI impI)
  assume h: "n_atoms m \<noteq> 0 \<and>
    sample_conf_atoms_list env n_rdkit_confs n_siman_confs (m\<lparr>conformers := Some []\<rparr>) tr
      = Some (Inr cands, tr1)"
  then have "Molecule_generate_conformers env n_rdkit_confs n_siman_confs m tr =
           Some (Returned (m\<lparr>conformers := Some (conformers_loop env m 0 cands [])\<rparr>) tr1)"
    by (intro generate_returns_loop) blast+
  moreover have "map conf_atoms (conformers_loop env m 0 cands []) = greedy_unique env [] cands"
    using conformers_loop_refines_greedy [of env m 0 cands "[]"] by simp
  ultimately show "\<exists>cs. Molecule_generate_conformers env n_rdkit_confs n_siman_confs m tr
               = Some (Returned (m\<lparr>conformers := Some cs\<rparr>) tr1) \<and>
            map conf_atoms cs = greedy_unique env [] cands"
    by blast
next
  assume "Molecule_generate_conformers env n_rdkit_confs n_siman_confs m tr
            = Some (Returned m' tr')"
  then obtain cands where cs: "conformers m' = Some (conformers_loop env m 0 cands [])"
    using generate_Returned by blast
  let ?cs = "conformers_loop env m 0 cands []"
  have "sorted_wrt (far_apart env) ?cs"
    by (rule conformers_loop_far_apart) simp
  then have far: "\<forall>i j. i < j \<and> j < length ?cs \<longrightarrow>
            rmsd_tol env \<le> calc_rmsd env (conf_atoms (?cs ! j)) (conf_atoms (?cs ! i))"
    by (simp add: sorted_wrt_iff_nth_less far_apart_def)
  have sym: "(\<forall>a b. calc_rmsd env a b = calc_rmsd env b a) \<longrightarrow>
            (\<forall>i j. i < length ?cs \<and> j < length ?cs \<and> i \<noteq> j \<longrightarrow>
               rmsd_tol env \<le> calc_rmsd env (conf_atoms (?cs ! i)) (conf_atoms (?cs ! j)))"
  proof (intro impI allI)
    fix i j
    assume s: "\<forall>a b. calc_rmsd env a b = calc_rmsd env b a"
      and ij: "i < length ?cs \<and> j < length ?cs \<and> i \<noteq> j"
    show "rmsd_tol env \<le> calc_rmsd env (conf_atoms (?cs ! i)) (conf_atoms (?cs ! j))"
    proof (cases "i < j")
      case True
      then have "rmsd_tol env \<le> calc_rmsd env (conf_atoms (?cs ! j)) (conf_atoms (?cs ! i))"
        using far ij by blast
      then show ?thesis using s by simp
    next
      case False
      then have "j < i" using ij by simp
      then show ?thesis using far ij by blast
    qed
  qed
  show "\<exists>cs. conformers m' = Some cs \<and>
         (\<forall>i j. i < j \<and> j < length cs \<longrightarrow>
            rmsd_tol env \<le> calc_rmsd env (conf_atoms (cs ! j)) (conf_atoms (cs ! i))) \<and>
         ((\<forall>a b. calc_rmsd env a b = calc_rmsd env b a) \<longrightarrow>
            (\<forall>i j. i < length cs \<and> j < length cs \<and> i \<noteq> j \<longrightarrow>
               rmsd_tol env \<le> calc_rmsd env (conf_atoms (cs ! i)) (conf_atoms (cs ! j))))"
    using cs far sym by blast
next
  show "conf_is_unique_rmsd env conf []"
    by (simp add: conf_is_unique_rmsd_def)
qed

lemma anneal_sample:
  "sample_conf_atoms_list anneal_env 300 5 (water\<lparr>conformers := Some []\<rparr>) [] =
     Some (Inr [anneal_atoms 0, anneal_atoms 1, anneal_atoms 2, anneal_atoms 3, anneal_atoms 4],
           [Call_apply_async 0, Call_apply_async 1, Call_apply_async 2,
            Call_apply_async 3, Call_apply_async 4])"
  by (simp add: sample_conf_atoms_list_def simanl_conf_atoms_list_def Let_def anneal_env_def
                example_env_def water_defs upt_0_5)


text \<open>Of the five annealing results on water, the first, third and fifth are kept.\<close>

theorem accepted_conformers_water:
  "conformer_geometries (Molecule_generate_conformers anneal_env 300 5 water []) =
     [anneal_atoms 0, anneal_atoms 2, anneal_atoms 4]"
proof -
  have g: "greedy_unique anneal_env []
             [anneal_atoms 0, anneal_atoms 1, anneal_atoms 2, anneal_atoms 3, anneal_atoms 4]
           = [anneal_atoms 0, anneal_atoms 2, anneal_atoms 4]"
    by (simp add: anneal_env_def example_env_def anneal_atoms_def)
  have "n_atoms water \<noteq> 0 \<and>
        sample_conf_atoms_list anneal_env 300 5 (water\<lparr>conformers := Some []\<rparr>) [] =
     Some (Inr [anneal_atoms 0, anneal_atoms 1, anneal_atoms 2, anneal_atoms 3, anneal_atoms 4],
           [Call_apply_async 0, Call_apply_async 1, Call_apply_async 2,
            Call_apply_async 3, Call_apply_async 4])"
    using anneal_sample by (simp add: water_fields)
  then obtain cs where
    r: "Molecule_generate_conformers anneal_env 300 5 water [] =
          Some (Returned (water\<lparr>conformers := Some cs\<rparr>)
             [Call_apply_async 0, Call_apply_async 1, Call_apply_async 2,
              Call_apply_async 3, Call_apply_async 4])"
    and c: "map conf_atoms cs = greedy_unique anneal_env []
             [anneal_atoms 0, anneal_atoms 1, anneal_atoms 2, anneal_atoms 3, anneal_atoms 4]"
    using accepted_conformers_pairwise_far [of water anneal_env 300 5 "[]", THEN conjunct1] by blast
  show ?thesis using r c g by (simp add: conformer_geometries_def)
qed



section \<open>Conformer names\<close>

text \<open>
  Claim C1, as the code has it. The loop numbers the candidates, not the accepted
  conformers: the accepted conformers are, in candidate order, the candidates \<open>k\<close> that
  the filter accepts, each named \<^verbatim>\<open><name>_conf<k>\<close> with its own position \<open>k\<close> in the
  candidate list and carrying the molecule's charge, multiplicity and solvent. Their
  number and the number of rejected candidates add up to the number of candidates, and
  this list is what conformer generation stores.
\<close>

theorem conformer_names_follow_candidate_index:
  "conformers_loop env m 0 cands [] =
     map (\<lambda>k. \<lparr>conf_name = name m @ ''_conf'' @ str_of_nat k, conf_charge = charge m,
               conf_mult = mult m, conf_atoms = cands ! k, conf_solvent = solvent m\<rparr>)
         (filter (accepted_at env m cands) [0 ..< length cands])
   \<and> length (conformers_loop env m 0 cands []) +
       length (filter (\<lambda>k. \<not> accepted_at env m cands k) [0 ..< length cands]) = length cands
   \<and> (n_atoms m \<noteq> 0 \<and>
       sample_conf_atoms_list env n_rdkit_confs n_siman_confs (m\<lparr>conformers := Some []\<rparr>) tr
         = Some (Inr cands, tr1) \<longrightarrow>
       Molecule_generate_conformers env n_rdkit_confs n_siman_confs m tr =
         Some (Returned (m\<lparr>conformers := Some (conformers_loop env m 0 cands [])\<rparr>) tr1))"
proof (intro conjI impI)
  show f: "conformers_loop env m 0 cands [] =
     map (\<lambda>k. \<lparr>conf_name = name m @ ''_conf'' @ str_of_nat k, conf_charge = charge m,
               conf_mult = mult m, conf_atoms = cands ! k, conf_solvent = solvent m\<rparr>)
         (filter (accepted_at env m cands) [0 ..< length cands])"
    by (rule conformers_loop_as_filter)
  have "length (conformers_loop env m 0 cands []) =
        length (filter (accepted_at env m cands) [0 ..< length cands])"
    by (subst f) simp
  then show "length (conformers_loop env m 0 cands []) +
       length (filter (\<lambda>k. \<not> accepted_at env m cands k) [0 ..< length cands]) = length cands"
    using sum_length_filter_compl [of "accepted_at env m cands" "[0 ..< length cands]"] by simp
next
  assume "n_atoms m \<noteq> 0 \<and>
       sample_conf_atoms_list env n_rdkit_confs n_siman_confs (m\<lparr>conformers := Some []\<rparr>) tr
         = Some (Inr cands, tr1)"
  then show "Molecule_generate_conformers env n_rdkit_confs n_siman_confs m tr =
         Some (Returned (m\<lparr>conformers := Some (conformers_loop env m 0 cands [])\<rparr>) tr1)"
    by (intro generate_returns_loop) blast+
qed

lemmas loop_eval_defs = conf_is_unique_rmsd_def Conformer_def Let_def anneal_env_def
  example_env_def anneal_atoms_def str_of_nat_small digit_def water_defs


text \<open>
  Five candidates for water, the second and fourth rejected: positions 0, 2 and 4 are
  accepted and give the names.
\<close>

theorem conformer_names_water:
  "filter (accepted_at anneal_env water
             [anneal_atoms 0, anneal_atoms 1, anneal_atoms 2, anneal_atoms 3, anneal_atoms 4])
          [0, 1, 2, 3, 4] = [0, 2, 4]
   \<and> map conf_name
        (conformers_loop anneal_env water 0
           [anneal_atoms 0, anneal_atoms 1, anneal_atoms 2, anneal_atoms 3, anneal_atoms 4] [])
      = [''water_conf0'', ''water_conf2'', ''water_conf4'']
   \<and> Molecule_generate_conformers anneal_env 300 5 water [] =
       Some (Returned
               (water\<lparr>conformers := Some (conformers_loop anneal_env water 0
                  [anneal_atoms 0, anneal_atoms 1, anneal_atoms 2, anneal_atoms 3, anneal_atoms 4]
                  [])\<rparr>)
               [Call_apply_async 0, Call_apply_async 1, Call_apply_async 2,
                Call_apply_async 3, Call_apply_async 4])"
proof -
  let ?cands = "[anneal_atoms 0, anneal_atoms 1, anneal_atoms 2, anneal_atoms 3, anneal_atoms 4]"
  have acc: "filter (accepted_at anneal_env water ?cands) [0, 1, 2, 3, 4] = [0, 2, 4]"
    by (simp add: accepted_at_def loop_eval_defs)
  have h: "n_atoms water \<noteq> 0 \<and>
        sample_conf_atoms_list anneal_env 300 5 (water\<lparr>conformers := Some []\<rparr>) [] =
     Some (Inr ?cands,
           [Call_apply_async 0, Call_apply_async 1, Call_apply_async 2,
            Call_apply_async 3, Call_apply_async 4])"
    using anneal_sample by (simp add: water_fields)
  note t = conformer_names_follow_candidate_index [of anneal_env water ?cands 300 5 "[]"
                  "[Call_apply_async 0, Call_apply_async 1, Call_apply_async 2,
                    Call_apply_async 3, Call_apply_async 4]"]
  have l: "length ?cands = 5" by simp
  have idx: "filter (accepted_at anneal_env water ?cands) [0 ..< length ?cands] = [0, 2, 4]"
    by (simp only: l upt_0_5 acc)
  have names: "map conf_name (conformers_loop anneal_env water 0 ?cands [])
      = [''water_conf0'', ''water_conf2'', ''water_conf4'']"
    by (subst t [THEN conjunct1], subst idx)
       (simp add: water_fields str_of_nat_small digit_def)
  have gen: "Molecule_generate_conformers anneal_env 300 5 water [] =
       Some (Returned (water\<lparr>conformers := Some (conformers_loop anneal_env water 0 ?cands [])\<rparr>)
               [Call_apply_async 0, Call_apply_async 1, Call_apply_async 2,
                Call_apply_async 3, Call_apply_async 4])"
    using t [THEN conjunct2, THEN conjunct2, THEN mp, OF h] .
  from acc names gen show ?thesis by (intro conjI)
qed


text \<open>
  Claim C1 as stated fails: five candidates, exactly two rejected, three conformers in
  first-seen order, and the names are not \<^verbatim>\<open>water_conf0\<close>, \<^verbatim>\<open>water_conf1\<close>,
  \<^verbatim>\<open>water_conf2\<close>.
\<close>

theorem conformer_names_skip_rejected_indices:
  "name water = ''water''
   \<and> sample_conf_atoms_list anneal_env 300 5 (water\<lparr>conformers := Some []\<rparr>) [] =
       Some (Inr [anneal_atoms 0, anneal_atoms 1, anneal_atoms 2, anneal_atoms 3, anneal_atoms 4],
             [Call_apply_async 0, Call_apply_async 1, Call_apply_async 2,
              Call_apply_async 3, Call_apply_async 4])
   \<and> conformer_geometries (Molecule_generate_conformers anneal_env 300 5 water []) =
       [anneal_atoms 0, anneal_atoms 2, anneal_atoms 4]
   \<and> conformer_names (Molecule_generate_conformers anneal_env 300 5 water []) =
       [''water_conf0'', ''water_conf2'', ''water_conf4'']
   \<and> conformer_names (Molecule_generate_conformers anneal_env 300 5 water []) \<noteq>
       [''water_conf0'', ''water_conf1'', ''water_conf2'']"
proof -
  have n: "conformer_names (Molecule_generate_conformers anneal_env 300 5 water []) =
       [''water_conf0'', ''water_conf2'', ''water_conf4'']"
    by (simp add: gen_defs anneal_env_def example_env_def water_defs conformer_names_def
        anneal_atoms_def str_of_nat_small digit_def upt_0_5)
  have g: "conformer_geometries (Molecule_generate_conformers anneal_env 300 5 water []) =
       [anneal_atoms 0, anneal_atoms 2, anneal_atoms 4]"
    by (simp add: gen_defs anneal_env_def example_env_def water_defs conformer_geometries_def
        anneal_atoms_def str_of_nat_small digit_def upt_0_5)
  show ?thesis using n g anneal_sample by (simp add: water_fields)
qed


end
